theory Spec2Isabelle
  imports Complex_Main "HOL-Library.Word"
begin

section \<open>Tables\<close>

text \<open>
  The migration tracker keeps its data in pandas DataFrames. A frame is modelled
  column-wise, as pandas stores it: a row index (the labels) and an ordered list of named,
  typed columns. Integer columns hold machine integers of their width; a float is kept as
  its value only (no arithmetic on floats is modelled); an object column holds strings or
  the missing marker. A frame is well formed when every column is as long as the index.
\<close>

datatype error =
    ValueError | KeyError | TypeError | FileNotFoundError | ZeroDivisionError

datatype fvalue = NaN | PosInf | NegInf | Fin rat

datatype obj = Missing | Str string

datatype timestamp = NaT | Stamp int

datatype column =
    Int8Col "8 word list"
  | Int16Col "16 word list"
  | Int32Col "32 word list"
  | Int64Col "64 word list"
  | Float32Col "fvalue list"
  | Float64Col "fvalue list"
  | BoolCol "bool list"
  | DatetimeCol "timestamp list"
  | ObjectCol "obj list"
  | CategoryCol column

record dataframe =
  index :: "nat list"
  columns :: "(string \<times> column) list"

fun col_len :: "column \<Rightarrow> nat" where
  "col_len (Int8Col xs) = length xs"
| "col_len (Int16Col xs) = length xs"
| "col_len (Int32Col xs) = length xs"
| "col_len (Int64Col xs) = length xs"
| "col_len (Float32Col xs) = length xs"
| "col_len (Float64Col xs) = length xs"
| "col_len (BoolCol xs) = length xs"
| "col_len (DatetimeCol xs) = length xs"
| "col_len (ObjectCol xs) = length xs"
| "col_len (CategoryCol c) = col_len c"

definition nrows :: "dataframe \<Rightarrow> nat" where
  "nrows df = length (index df)"

definition column_names :: "dataframe \<Rightarrow> string list" where
  "column_names df = map fst (columns df)"

definition wf_frame :: "dataframe \<Rightarrow> bool" where
  "wf_frame df = list_all (\<lambda>nc. col_len (snd nc) = nrows df) (columns df)"

section \<open>Objects and references\<close>

text \<open>
  Python passes frames by reference, and the processing functions assign to columns and
  to the column labels of a frame in place. The store is the list of all frames allocated
  so far; a reference is a position in it. \<open>df.copy()\<close> allocates a new frame with the
  same contents (pandas copies deeply by default).
\<close>

type_synonym ref = nat
type_synonym store = "dataframe list"

definition alloc :: "store \<Rightarrow> dataframe \<Rightarrow> ref \<times> store" where
  "alloc s v = (length s, s @ [v])"

definition df_copy :: "store \<Rightarrow> ref \<Rightarrow> ref \<times> store" where
  "df_copy s r = alloc s (s ! r)"

text \<open>
  \<open>df.columns = names\<close> relabels the columns in place; pandas raises a ValueError
  when the number of names differs from the number of columns.
\<close>

definition set_columns :: "store \<Rightarrow> ref \<Rightarrow> string list \<Rightarrow> error + store" where
  "set_columns s r names =
     (if length names \<noteq> length (columns (s ! r)) then Inl ValueError
      else Inr (s[r := (s ! r)\<lparr>columns := zip names (map snd (columns (s ! r)))\<rparr>]))"

section \<open>Column-name standardisation\<close>

text \<open>
  \<open>str.lower\<close> on code points below 256: the upper-case letters are A to Z and the
  Latin-1 capitals 192 to 222 except the multiplication sign 215; each is 32 below its
  lower-case letter. \<open>str.replace\<close> is used with one-character patterns only.
\<close>

definition lower_char :: "char \<Rightarrow> char" where
  "lower_char c =
     (let n = (of_char c :: nat)
      in if (65 \<le> n \<and> n \<le> 90) \<or> (192 \<le> n \<and> n \<le> 222 \<and> n \<noteq> 215)
         then char_of (n + 32) else c)"

definition str_lower :: "string \<Rightarrow> string" where
  "str_lower s = map lower_char s"

definition str_replace :: "char \<Rightarrow> char \<Rightarrow> string \<Rightarrow> string" where
  "str_replace old new s = map (\<lambda>c. if c = old then new else c) s"

definition standardize_name :: "string \<Rightarrow> string" where
  "standardize_name n =
     str_replace (CHR ''-'') (CHR ''_'') (str_replace (CHR '' '') (CHR ''_'') (str_lower n))"

text \<open>
  \<open>DataProcessor.standardize_column_names\<close>: copy the frame, relabel the copy, return it.
\<close>

definition standardize_column_names :: "store \<Rightarrow> ref \<Rightarrow> (error + ref) \<times> store" where
  "standardize_column_names s df =
     (case df_copy s df of (df', s1) \<Rightarrow>
        (case set_columns s1 df' (map standardize_name (column_names (s1 ! df'))) of
           Inl e \<Rightarrow> (Inl e, s1)
         | Inr s2 \<Rightarrow> (Inr df', s2)))"

text \<open>The three steps of the standardisation, on one character.\<close>

definition standardize_char :: "char \<Rightarrow> char" where
  "standardize_char c =
     (let d = (if lower_char c = CHR '' '' then CHR ''_'' else lower_char c)
      in if d = CHR ''-'' then CHR ''_'' else d)"

section \<open>Rows and duplicates\<close>

text \<open>
  A row is read off the columns position by position. Values are compared as pandas
  compares them when it looks for duplicates: by value, missing values being equal to each
  other.
\<close>

datatype cell =
    IntCell int | FloatCell fvalue | BoolCell bool | TimeCell timestamp | ObjCell obj

fun cells :: "column \<Rightarrow> cell list" where
  "cells (Int8Col xs) = map (\<lambda>x. IntCell (sint x)) xs"
| "cells (Int16Col xs) = map (\<lambda>x. IntCell (sint x)) xs"
| "cells (Int32Col xs) = map (\<lambda>x. IntCell (sint x)) xs"
| "cells (Int64Col xs) = map (\<lambda>x. IntCell (sint x)) xs"
| "cells (Float32Col xs) = map FloatCell xs"
| "cells (Float64Col xs) = map FloatCell xs"
| "cells (BoolCol xs) = map BoolCell xs"
| "cells (DatetimeCol xs) = map TimeCell xs"
| "cells (ObjectCol xs) = map ObjCell xs"
| "cells (CategoryCol c) = cells c"

definition row_at :: "dataframe \<Rightarrow> nat \<Rightarrow> cell list" where
  "row_at df i = map (\<lambda>nc. cells (snd nc) ! i) (columns df)"

text \<open>Positional selection of rows (\<open>take\<close>), on a column and on a frame.\<close>

fun col_take :: "column \<Rightarrow> nat list \<Rightarrow> column" where
  "col_take (Int8Col xs) ps = Int8Col (map (nth xs) ps)"
| "col_take (Int16Col xs) ps = Int16Col (map (nth xs) ps)"
| "col_take (Int32Col xs) ps = Int32Col (map (nth xs) ps)"
| "col_take (Int64Col xs) ps = Int64Col (map (nth xs) ps)"
| "col_take (Float32Col xs) ps = Float32Col (map (nth xs) ps)"
| "col_take (Float64Col xs) ps = Float64Col (map (nth xs) ps)"
| "col_take (BoolCol xs) ps = BoolCol (map (nth xs) ps)"
| "col_take (DatetimeCol xs) ps = DatetimeCol (map (nth xs) ps)"
| "col_take (ObjectCol xs) ps = ObjectCol (map (nth xs) ps)"
| "col_take (CategoryCol c) ps = CategoryCol (col_take c ps)"

definition take_rows :: "dataframe \<Rightarrow> nat list \<Rightarrow> dataframe" where
  "take_rows df ps =
     \<lparr>index = map (nth (index df)) ps,
      columns = map (\<lambda>nc. (fst nc, col_take (snd nc) ps)) (columns df)\<rparr>"

text \<open>
  \<open>DataFrame.duplicated()\<close> with its default \<open>keep='first'\<close>: a row is marked
  when an equal row has been seen before it. \<open>drop_duplicates()\<close> returns a new frame
  with the unmarked rows, labels kept; a frame with no rows or no columns is returned as a
  copy.
\<close>

fun seen_before :: "'a list \<Rightarrow> 'a list \<Rightarrow> bool list" where
  "seen_before seen [] = []"
| "seen_before seen (r # rs) = (r \<in> set seen) # seen_before (r # seen) rs"

definition duplicated :: "dataframe \<Rightarrow> bool list" where
  "duplicated df = seen_before [] (map (row_at df) [0..<nrows df])"

definition drop_duplicates_frame :: "dataframe \<Rightarrow> dataframe" where
  "drop_duplicates_frame df =
     (if columns df = [] \<or> index df = [] then df
      else take_rows df (filter (\<lambda>i. \<not> duplicated df ! i) [0..<nrows df]))"

definition kept :: "dataframe \<Rightarrow> nat list" where
  "kept df = filter (\<lambda>i. \<not> duplicated df ! i) [0..<nrows df]"

definition drop_duplicates :: "store \<Rightarrow> ref \<Rightarrow> ref \<times> store" where
  "drop_duplicates s r = alloc s (drop_duplicates_frame (s ! r))"

text \<open>
  \<open>DataProcessor.clean_migration_data\<close>: copy, drop the duplicates of the copy, return
  the frame that \<open>drop_duplicates\<close> made. The counts of removed rows and of missing
  values only go to the logger, which is not modelled.
\<close>

definition clean_migration_data :: "store \<Rightarrow> ref \<Rightarrow> ref \<times> store" where
  "clean_migration_data s df =
     (case df_copy s df of (cleaned_df, s1) \<Rightarrow> drop_duplicates s1 cleaned_df)"

section \<open>Column access and the library\<close>

text \<open>
  \<open>df[col]\<close> reads a column and raises a KeyError when there is none of that name;
  \<open>df[col] = values\<close> replaces the column of that name in place, or appends a new one.
  Columns carry no labels of their own, so the assigned values must be as many as the
  frame has rows; pandas raises a ValueError otherwise. Column labels are taken to be
  distinct wherever a column is read or assigned by name.
\<close>

definition getitem :: "dataframe \<Rightarrow> string \<Rightarrow> error + column" where
  "getitem df col = (case map_of (columns df) col of None \<Rightarrow> Inl KeyError | Some c \<Rightarrow> Inr c)"

fun replace_col :: "string \<Rightarrow> column \<Rightarrow> (string \<times> column) list \<Rightarrow> (string \<times> column) list" where
  "replace_col col c [] = [(col, c)]"
| "replace_col col c ((n, d) # rest) =
     (if n = col then (n, c) # rest else (n, d) # replace_col col c rest)"

definition setitem :: "store \<Rightarrow> ref \<Rightarrow> string \<Rightarrow> column \<Rightarrow> error + store" where
  "setitem s r col c =
     (if col_len c \<noteq> nrows (s ! r) then Inl ValueError
      else Inr (s[r := (s ! r)\<lparr>columns := replace_col col c (columns (s ! r))\<rparr>]))"

definition bind_err :: "error + 'a \<Rightarrow> ('a \<Rightarrow> error + 'b) \<Rightarrow> error + 'b" where
  "bind_err m f = (case m of Inl e \<Rightarrow> Inl e | Inr x \<Rightarrow> f x)"

text \<open>
  The parsing, floating-point and grouping routines of pandas and NumPy are not part of
  the repository. The model takes them as a parameter: a record of functions, each of
  which returns a value or raises. Every theorem below holds for any such record.
\<close>

datatype scalar = IntScalar "64 word" | FloatScalar fvalue | ObjScalar obj

type_synonym grouped = "(cell list \<times> scalar) list"

record pandas =
  to_datetime :: "column \<Rightarrow> error + column"
  to_numeric_coerce :: "column \<Rightarrow> error + column"
  to_numeric_downcast_float :: "column \<Rightarrow> error + column"
  groupby_year_agg :: "dataframe \<Rightarrow> string list \<Rightarrow> string \<Rightarrow> string \<Rightarrow> error + dataframe"
  sum_other :: "column \<Rightarrow> error + scalar"
  series_mean :: "column \<Rightarrow> error + fvalue"
  series_median :: "column \<Rightarrow> error + fvalue"
  series_std :: "column \<Rightarrow> error + fvalue"
  groupby_sum :: "dataframe \<Rightarrow> string list \<Rightarrow> string \<Rightarrow> error + grouped"
  nlargest :: "nat \<Rightarrow> grouped \<Rightarrow> error + grouped"
  subtract_fill :: "grouped \<Rightarrow> grouped \<Rightarrow> error + grouped"

text \<open>\<open>astype('category')\<close> wraps the values of a column; a categorical column stays.\<close>

fun astype_category :: "column \<Rightarrow> column" where
  "astype_category (CategoryCol c) = CategoryCol c"
| "astype_category c = CategoryCol c"

section \<open>Type validation\<close>

text \<open>
  The body of the \<open>try\<close> block of \<open>DataProcessor.validate_data_types\<close> for one
  (column, expected type) pair: the first matching branch converts the column and assigns
  the result; an expected type that is none of the three leaves the frame as it is.
\<close>

definition convert_column :: "pandas \<Rightarrow> store \<Rightarrow> ref \<Rightarrow> string \<Rightarrow> string \<Rightarrow> error + store" where
  "convert_column L s df col expected_type =
     (if expected_type = ''datetime'' then
        bind_err (getitem (s ! df) col) (\<lambda>c.
        bind_err (to_datetime L c) (\<lambda>c'. setitem s df col c'))
      else if expected_type = ''numeric'' then
        bind_err (getitem (s ! df) col) (\<lambda>c.
        bind_err (to_numeric_coerce L c) (\<lambda>c'. setitem s df col c'))
      else if expected_type = ''category'' then
        bind_err (getitem (s ! df) col) (\<lambda>c. setitem s df col (astype_category c))
      else Inr s)"

text \<open>
  The loop over \<open>expected_types.items()\<close>. \<open>except Exception\<close> catches whatever the
  body raises, logs a warning and goes on with the next pair; the assignment has not
  happened then, so the store is the one from before the body.
\<close>

fun validate_loop :: "pandas \<Rightarrow> store \<Rightarrow> ref \<Rightarrow> (string \<times> string) list \<Rightarrow> store" where
  "validate_loop L s df [] = s"
| "validate_loop L s df ((col, expected_type) # rest) =
     (if col \<in> set (column_names (s ! df)) then
        (case convert_column L s df col expected_type of
           Inl e \<Rightarrow> validate_loop L s df rest
         | Inr s' \<Rightarrow> validate_loop L s' df rest)
      else validate_loop L s df rest)"

definition validate_data_types ::
    "pandas \<Rightarrow> store \<Rightarrow> ref \<Rightarrow> (string \<times> string) list \<Rightarrow> (error + ref) \<times> store" where
  "validate_data_types L s df expected_types =
     (case df_copy s df of (df', s1) \<Rightarrow> (Inr df', validate_loop L s1 df' expected_types))"

section \<open>Trend analysis\<close>

text \<open>
  \<open>MigrationAnalyzer.migration_trends\<close>: both columns must exist; the time column of a
  copy is converted to datetimes; the grouping by year (and by \<open>groupby_col\<close> when it is
  given and not empty) with the aggregates sum, mean and count is the library's and makes
  a new frame.
\<close>

definition migration_trends ::
    "pandas \<Rightarrow> store \<Rightarrow> ref \<Rightarrow> string \<Rightarrow> string \<Rightarrow> string option \<Rightarrow> (error + ref) \<times> store" where
  "migration_trends L s df time_col migration_col groupby_col =
     (if time_col \<notin> set (column_names (s ! df)) then (Inl ValueError, s)
      else if migration_col \<notin> set (column_names (s ! df)) then (Inl ValueError, s)
      else
        (case df_copy s df of (df', s1) \<Rightarrow>
           (case bind_err (getitem (s1 ! df') time_col) (\<lambda>c.
                 bind_err (to_datetime L c) (\<lambda>c'. setitem s1 df' time_col c')) of
              Inl e \<Rightarrow> (Inl e, s1)
            | Inr s2 \<Rightarrow>
                (case groupby_year_agg L (s2 ! df')
                        (case groupby_col of None \<Rightarrow> [] | Some g \<Rightarrow> if g = [] then [] else [g])
                        time_col migration_col of
                   Inl e \<Rightarrow> (Inl e, s2)
                 | Inr trends \<Rightarrow> (case alloc s2 trends of (r, s3) \<Rightarrow> (Inr r, s3))))))"

section \<open>Downsizing numeric types\<close>

text \<open>
  \<open>select_dtypes(include=[t]).columns\<close>: the names of the columns of one type, in
  order.
\<close>

fun is_int64 :: "column \<Rightarrow> bool" where
  "is_int64 (Int64Col xs) = True"
| "is_int64 c = False"

fun is_float64 :: "column \<Rightarrow> bool" where
  "is_float64 (Float64Col xs) = True"
| "is_float64 c = False"

fun is_object :: "column \<Rightarrow> bool" where
  "is_object (ObjectCol xs) = True"
| "is_object c = False"

definition select_dtypes :: "(column \<Rightarrow> bool) \<Rightarrow> dataframe \<Rightarrow> string list" where
  "select_dtypes p df = map fst (filter (\<lambda>nc. p (snd nc)) (columns df))"

text \<open>
  The minimum and maximum of an integer column, as mathematical integers. Of an empty
  column they are NaN, and every comparison with NaN is false: \<open>None\<close> here.
\<close>

definition series_min :: "64 word list \<Rightarrow> int option" where
  "series_min xs = (if xs = [] then None else Some (Min (set (map sint xs))))"

definition series_max :: "64 word list \<Rightarrow> int option" where
  "series_max xs = (if xs = [] then None else Some (Max (set (map sint xs))))"

definition ge_opt :: "int option \<Rightarrow> int \<Rightarrow> bool" where
  "ge_opt a b = (case a of None \<Rightarrow> False | Some x \<Rightarrow> x \<ge> b)"

definition le_opt :: "int option \<Rightarrow> int \<Rightarrow> bool" where
  "le_opt a b = (case a of None \<Rightarrow> False | Some x \<Rightarrow> x \<le> b)"

text \<open>
  The body of the first loop of \<open>optimize_dtypes\<close>, for one column name. \<open>astype\<close> to
  a narrower integer type keeps the low bits. The loop runs over names of 64-bit integer
  columns; with distinct labels the last case is not reached.
\<close>

definition optimize_int :: "ref \<Rightarrow> string \<Rightarrow> store \<Rightarrow> error + store" where
  "optimize_int df col s =
     bind_err (getitem (s ! df) col) (\<lambda>c.
       (case c of
          Int64Col xs \<Rightarrow>
            (let col_min = series_min xs; col_max = series_max xs
             in if ge_opt col_min (- 128) \<and> le_opt col_max 127
                then setitem s df col (Int8Col (map scast xs))
                else if ge_opt col_min (- 32768) \<and> le_opt col_max 32767
                then setitem s df col (Int16Col (map scast xs))
                else if ge_opt col_min (- 2147483648) \<and> le_opt col_max 2147483647
                then setitem s df col (Int32Col (map scast xs))
                else Inr s)
        | _ \<Rightarrow> Inr s))"

definition optimize_float :: "pandas \<Rightarrow> ref \<Rightarrow> string \<Rightarrow> store \<Rightarrow> error + store" where
  "optimize_float L df col s =
     bind_err (getitem (s ! df) col) (\<lambda>c.
     bind_err (to_numeric_downcast_float L c) (\<lambda>c'. setitem s df col c'))"

text \<open>
  \<open>nunique()\<close> counts the distinct values that are not missing. The third loop divides
  it by \<open>len(df)\<close>, two Python integers: a ZeroDivisionError when the frame has no rows.
  The quotient is below one half exactly when twice the count is below the length.
\<close>

fun is_missing :: "cell \<Rightarrow> bool" where
  "is_missing (FloatCell NaN) = True"
| "is_missing (TimeCell NaT) = True"
| "is_missing (ObjCell Missing) = True"
| "is_missing c = False"

definition nunique :: "column \<Rightarrow> nat" where
  "nunique c = length (remdups (filter (\<lambda>v. \<not> is_missing v) (cells c)))"

definition optimize_object :: "ref \<Rightarrow> string \<Rightarrow> store \<Rightarrow> error + store" where
  "optimize_object df col s =
     bind_err (getitem (s ! df) col) (\<lambda>c.
       if nrows (s ! df) = 0 then Inl ZeroDivisionError
       else if 2 * nunique c < nrows (s ! df) then setitem s df col (astype_category c)
       else Inr s)"

text \<open>A \<open>for\<close> loop whose body may raise: the exception ends it, with the store as it is.\<close>

fun for_each :: "('a \<Rightarrow> store \<Rightarrow> error + store) \<Rightarrow> 'a list \<Rightarrow> store \<Rightarrow> error option \<times> store" where
  "for_each body [] s = (None, s)"
| "for_each body (x # xs) s =
     (case body x s of Inl e \<Rightarrow> (Some e, s) | Inr s' \<Rightarrow> for_each body xs s')"

definition optimize_dtypes :: "pandas \<Rightarrow> store \<Rightarrow> ref \<Rightarrow> (error + ref) \<times> store" where
  "optimize_dtypes L s df =
     (case df_copy s df of (df_optimized, s1) \<Rightarrow>
        (case for_each (optimize_int df_optimized)
                (select_dtypes is_int64 (s1 ! df_optimized)) s1 of
           (Some e, s2) \<Rightarrow> (Inl e, s2)
         | (None, s2) \<Rightarrow>
             (case for_each (optimize_float L df_optimized)
                     (select_dtypes is_float64 (s2 ! df_optimized)) s2 of
                (Some e, s3) \<Rightarrow> (Inl e, s3)
              | (None, s3) \<Rightarrow>
                  (case for_each (optimize_object df_optimized)
                          (select_dtypes is_object (s3 ! df_optimized)) s3 of
                     (Some e, s4) \<Rightarrow> (Inl e, s4)
                   | (None, s4) \<Rightarrow> (Inr df_optimized, s4)))))"

section \<open>Migration metrics\<close>

text \<open>
  \<open>Series.sum()\<close> of an integer column adds in 64-bit integers, narrower columns being
  widened first, and wraps around on overflow as NumPy does. The sums of the other column
  types are the library's.
\<close>

definition series_sum :: "pandas \<Rightarrow> column \<Rightarrow> error + scalar" where
  "series_sum L c =
     (case c of
        Int8Col xs \<Rightarrow> Inr (IntScalar (sum_list (map scast xs)))
      | Int16Col xs \<Rightarrow> Inr (IntScalar (sum_list (map scast xs)))
      | Int32Col xs \<Rightarrow> Inr (IntScalar (sum_list (map scast xs)))
      | Int64Col xs \<Rightarrow> Inr (IntScalar (sum_list xs))
      | _ \<Rightarrow> sum_other L c)"

record metrics =
  total_migration :: scalar
  top_origins :: grouped
  top_destinations :: grouped
  top_flows :: grouped
  mean_migration :: fvalue
  median_migration :: fvalue
  std_migration :: fvalue
  net_migration :: grouped

text \<open>
  \<open>calculate_migration_metrics\<close> reads the frame and fills a dictionary, entry by entry
  in the order of the source; an exception of any step ends the call.
\<close>

definition calculate_migration_metrics ::
    "pandas \<Rightarrow> dataframe \<Rightarrow> string \<Rightarrow> string \<Rightarrow> string \<Rightarrow> error + metrics" where
  "calculate_migration_metrics L df origin_col destination_col migration_col =
     bind_err (bind_err (getitem df migration_col) (series_sum L)) (\<lambda>total.
     bind_err (bind_err (groupby_sum L df [origin_col] migration_col) (nlargest L 10)) (\<lambda>origins.
     bind_err (bind_err (groupby_sum L df [destination_col] migration_col) (nlargest L 10)) (\<lambda>destinations.
     bind_err (bind_err (groupby_sum L df [origin_col, destination_col] migration_col) (nlargest L 10)) (\<lambda>flows.
     bind_err (bind_err (getitem df migration_col) (series_mean L)) (\<lambda>mean.
     bind_err (bind_err (getitem df migration_col) (series_median L)) (\<lambda>median.
     bind_err (bind_err (getitem df migration_col) (series_std L)) (\<lambda>std.
     bind_err (groupby_sum L df [origin_col] migration_col) (\<lambda>outflow.
     bind_err (groupby_sum L df [destination_col] migration_col) (\<lambda>inflow.
     bind_err (subtract_fill L inflow outflow) (\<lambda>net.
       Inr \<lparr>total_migration = total, top_origins = origins,
            top_destinations = destinations, top_flows = flows,
            mean_migration = mean, median_migration = median, std_migration = std,
            net_migration = net\<rparr>))))))))))"

section \<open>Correlation analysis\<close>





fun insert_by :: "('a \<Rightarrow> 'a \<Rightarrow> bool) \<Rightarrow> 'a \<Rightarrow> 'a list \<Rightarrow> 'a list" where
  "insert_by le x [] = [x]"
| "insert_by le x (y # ys) = (if le x y then x # y # ys else y # insert_by le x ys)"

definition sort_by :: "('a \<Rightarrow> 'a \<Rightarrow> bool) \<Rightarrow> 'a list \<Rightarrow> 'a list" where
  "sort_by le xs = foldr (insert_by le) xs []"







section \<open>Great-circle distance\<close>

text \<open>
  \<open>calculate_distance\<close> of the analysis script is the haversine formula on the output
  of Python's \<open>math\<close> module. The numbers are modelled as real numbers: the rounding of
  the double-precision operations is not part of the model. \<open>math.radians\<close> multiplies
  by \<open>pi / 180\<close>, \<open>math.sqrt\<close> raises a ValueError below zero, and \<open>math.atan2\<close>
  is the angle of the point \<open>(x, y)\<close> in \<open>(-pi, pi]\<close>.
\<close>

definition radians :: "real \<Rightarrow> real" where
  "radians x = x * (pi / 180)"

definition math_sqrt :: "real \<Rightarrow> error + real" where
  "math_sqrt x = (if x < 0 then Inl ValueError else Inr (sqrt x))"

definition atan2 :: "real \<Rightarrow> real \<Rightarrow> real" where
  "atan2 y x =
     (if 0 < x then arctan (y / x)
      else if x < 0 then (if 0 \<le> y then arctan (y / x) + pi else arctan (y / x) - pi)
      else if 0 < y then pi / 2
      else if y < 0 then - (pi / 2)
      else 0)"

definition calculate_distance :: "real \<Rightarrow> real \<Rightarrow> real \<Rightarrow> real \<Rightarrow> error + real" where
  "calculate_distance lat1 lon1 lat2 lon2 =
     (let R = 6371;
          lat1' = radians lat1;
          lon1' = radians lon1;
          lat2' = radians lat2;
          lon2' = radians lon2;
          dlat = lat2' - lat1';
          dlon = lon2' - lon1';
          a = (sin (dlat / 2))\<^sup>2 + cos lat1' * cos lat2' * (sin (dlon / 2))\<^sup>2
      in bind_err (math_sqrt a) (\<lambda>root_a.
         bind_err (math_sqrt (1 - a)) (\<lambda>root_b.
           let c = 2 * atan2 root_a root_b
           in Inr (R * c))))"

section \<open>A small instance of the library\<close>

text \<open>
  To run the functions on examples the library parameter needs a value. The instance
  below is a small executable one, in exact arithmetic: it reads dates written
  \<open>YYYY-MM-DD\<close> and decimal integers, groups and sorts by key, and computes its
  statistics for integer and float columns, floats being added without rounding. It
  stands next to the theorems, none of which depends on it.
\<close>

definition digit_val :: "char \<Rightarrow> nat option" where
  "digit_val c =
     (let n = (of_char c :: nat) in if 48 \<le> n \<and> n \<le> 57 then Some (n - 48) else None)"

fun digits_val :: "string \<Rightarrow> nat \<Rightarrow> nat option" where
  "digits_val [] acc = Some acc"
| "digits_val (c # cs) acc =
     (case digit_val c of None \<Rightarrow> None | Some d \<Rightarrow> digits_val cs (10 * acc + d))"

definition parse_nat :: "string \<Rightarrow> nat option" where
  "parse_nat s = (if s = [] then None else digits_val s 0)"

definition parse_int :: "string \<Rightarrow> int option" where
  "parse_int s =
     (case s of
        [] \<Rightarrow> None
      | c # cs \<Rightarrow>
          if c = CHR ''-'' then map_option (\<lambda>n. - int n) (parse_nat cs)
          else map_option int (parse_nat s))"

definition days_from_civil :: "int \<Rightarrow> int \<Rightarrow> int \<Rightarrow> int" where
  "days_from_civil y m d =
     (let y' = (if m \<le> 2 then y - 1 else y);
          era = y' div 400;
          yoe = y' mod 400;
          doy = (153 * (if m > 2 then m - 3 else m + 9) + 2) div 5 + d - 1;
          doe = yoe * 365 + yoe div 4 - yoe div 100 + doy
      in era * 146097 + doe - 719468)"

definition year_of_days :: "int \<Rightarrow> int" where
  "year_of_days z0 =
     (let z = z0 + 719468;
          era = z div 146097;
          doe = z mod 146097;
          yoe = (doe - doe div 1460 + doe div 36524 - doe div 146096) div 365;
          doy = doe - (365 * yoe + yoe div 4 - yoe div 100);
          mp = (5 * doy + 2) div 153
      in yoe + era * 400 + (if mp < 10 then 0 else 1))"

definition ns_per_day :: int where
  "ns_per_day = 86400000000000"

definition parse_date :: "string \<Rightarrow> timestamp option" where
  "parse_date s =
     (if length s = 10 \<and> s ! 4 = CHR ''-'' \<and> s ! 7 = CHR ''-'' then
        (case (parse_nat (take 4 s), parse_nat (take 2 (drop 5 s)), parse_nat (drop 8 s)) of
           (Some y, Some m, Some d) \<Rightarrow>
             if 1 \<le> m \<and> m \<le> 12 \<and> 1 \<le> d \<and> d \<le> 31
             then Some (Stamp (days_from_civil (int y) (int m) (int d) * ns_per_day))
             else None
         | _ \<Rightarrow> None)
      else None)"

definition obj_date :: "obj \<Rightarrow> timestamp option" where
  "obj_date v = (case v of Missing \<Rightarrow> Some NaT | Str s \<Rightarrow> parse_date s)"

definition sequence_opt :: "'a option list \<Rightarrow> 'a list option" where
  "sequence_opt xs = (if list_all (\<lambda>x. x \<noteq> None) xs then Some (map the xs) else None)"

definition to_datetime0 :: "column \<Rightarrow> error + column" where
  "to_datetime0 c =
     (case c of
        DatetimeCol ts \<Rightarrow> Inr c
      | Int64Col xs \<Rightarrow> Inr (DatetimeCol (map (\<lambda>x. Stamp (sint x)) xs))
      | ObjectCol vs \<Rightarrow>
          (case sequence_opt (map obj_date vs) of
             None \<Rightarrow> Inl ValueError
           | Some ts \<Rightarrow> Inr (DatetimeCol ts))
      | _ \<Rightarrow> Inl TypeError)"

definition obj_int :: "obj \<Rightarrow> int option" where
  "obj_int v = (case v of Missing \<Rightarrow> None | Str s \<Rightarrow> parse_int s)"

definition to_numeric0 :: "column \<Rightarrow> error + column" where
  "to_numeric0 c =
     (case c of
        ObjectCol vs \<Rightarrow>
          (case sequence_opt (map obj_int vs) of
             Some ns \<Rightarrow> Inr (Int64Col (map word_of_int ns))
           | None \<Rightarrow>
               Inr (Float64Col
                 (map (\<lambda>v. case obj_int v of None \<Rightarrow> NaN | Some n \<Rightarrow> Fin (of_int n)) vs)))
      | DatetimeCol ts \<Rightarrow> Inl TypeError
      | CategoryCol d \<Rightarrow> Inl TypeError
      | _ \<Rightarrow> Inr c)"

text \<open>Integers below \<open>2 ^ 24\<close> in size are floats of single precision.\<close>

definition fits_float32 :: "fvalue \<Rightarrow> bool" where
  "fits_float32 v =
     (case v of Fin q \<Rightarrow> q = of_int \<lfloor>q\<rfloor> \<and> \<bar>q\<bar> < 16777216 | _ \<Rightarrow> True)"

definition downcast_float0 :: "column \<Rightarrow> error + column" where
  "downcast_float0 c =
     (case c of
        Float64Col xs \<Rightarrow> if list_all fits_float32 xs then Inr (Float32Col xs) else Inr c
      | _ \<Rightarrow> Inr c)"

text \<open>
  Floats in the instance: addition on values, the sum that skips NaN as \<open>Series.sum\<close>
  does, the order of the values, and a square root rounded down to nine decimal places.
\<close>

fun fadd :: "fvalue \<Rightarrow> fvalue \<Rightarrow> fvalue" where
  "fadd NaN y = NaN"
| "fadd x NaN = NaN"
| "fadd PosInf NegInf = NaN"
| "fadd NegInf PosInf = NaN"
| "fadd PosInf y = PosInf"
| "fadd x PosInf = PosInf"
| "fadd NegInf y = NegInf"
| "fadd x NegInf = NegInf"
| "fadd (Fin a) (Fin b) = Fin (a + b)"

fun fscale :: "rat \<Rightarrow> fvalue \<Rightarrow> fvalue" where
  "fscale r (Fin a) = Fin (r * a)"
| "fscale r x = x"

definition skipna :: "fvalue list \<Rightarrow> fvalue list" where
  "skipna xs = filter (\<lambda>x. x \<noteq> NaN) xs"

definition fsum :: "fvalue list \<Rightarrow> fvalue" where
  "fsum xs = foldl fadd (Fin 0) (skipna xs)"

fun flt_key :: "fvalue \<Rightarrow> nat \<times> rat" where
  "flt_key NegInf = (0, 0)"
| "flt_key (Fin a) = (1, a)"
| "flt_key PosInf = (2, 0)"
| "flt_key NaN = (3, 0)"

definition flt_le :: "fvalue \<Rightarrow> fvalue \<Rightarrow> bool" where
  "flt_le x y =
     (fst (flt_key x) < fst (flt_key y) \<or>
      (fst (flt_key x) = fst (flt_key y) \<and> snd (flt_key x) \<le> snd (flt_key y)))"

fun isqrt_between :: "nat \<Rightarrow> int \<Rightarrow> int \<Rightarrow> int \<Rightarrow> int" where
  "isqrt_between 0 n lo hi = lo"
| "isqrt_between (Suc fuel) n lo hi =
     (if hi \<le> lo + 1 then lo
      else (let mid = (lo + hi) div 2
            in if mid * mid \<le> n then isqrt_between fuel n mid hi
               else isqrt_between fuel n lo mid))"

definition isqrt :: "int \<Rightarrow> int" where
  "isqrt n = isqrt_between 256 n 0 (n + 1)"

definition sqrt_down :: "rat \<Rightarrow> rat" where
  "sqrt_down q = of_int (isqrt \<lfloor>q * 1000000000000000000\<rfloor>) / 1000000000"

text \<open>The values of a numeric column as floats; the reductions of the instance.\<close>

definition float_values :: "column \<Rightarrow> fvalue list option" where
  "float_values c =
     (case c of
        Int8Col xs \<Rightarrow> Some (map (\<lambda>x. Fin (of_int (sint x))) xs)
      | Int16Col xs \<Rightarrow> Some (map (\<lambda>x. Fin (of_int (sint x))) xs)
      | Int32Col xs \<Rightarrow> Some (map (\<lambda>x. Fin (of_int (sint x))) xs)
      | Int64Col xs \<Rightarrow> Some (map (\<lambda>x. Fin (of_int (sint x))) xs)
      | Float32Col xs \<Rightarrow> Some xs
      | Float64Col xs \<Rightarrow> Some xs
      | _ \<Rightarrow> None)"

definition sum_other0 :: "column \<Rightarrow> error + scalar" where
  "sum_other0 c =
     (case c of
        Float32Col xs \<Rightarrow> Inr (FloatScalar (fsum xs))
      | Float64Col xs \<Rightarrow> Inr (FloatScalar (fsum xs))
      | BoolCol bs \<Rightarrow> Inr (IntScalar (of_nat (length (filter (\<lambda>b. b) bs))))
      | _ \<Rightarrow> Inl TypeError)"

definition mean_of :: "fvalue list \<Rightarrow> fvalue" where
  "mean_of xs =
     (let ys = skipna xs
      in if ys = [] then NaN else fscale (1 / of_nat (length ys)) (fsum ys))"

definition median_of :: "fvalue list \<Rightarrow> fvalue" where
  "median_of xs =
     (let ys = sort_by flt_le (skipna xs); n = length ys
      in if n = 0 then NaN
         else if odd n then ys ! (n div 2)
         else fscale (1 / 2) (fadd (ys ! (n div 2 - 1)) (ys ! (n div 2))))"

fun fin_value :: "fvalue \<Rightarrow> rat option" where
  "fin_value (Fin a) = Some a"
| "fin_value x = None"

definition variance_of :: "rat list \<Rightarrow> rat" where
  "variance_of vs =
     (let m = sum_list vs / of_nat (length vs)
      in sum_list (map (\<lambda>v. (v - m) * (v - m)) vs) / of_nat (length vs - 1))"

definition std_of :: "fvalue list \<Rightarrow> fvalue" where
  "std_of xs =
     (let ys = skipna xs
      in if length ys < 2 then NaN
         else if list_all (\<lambda>y. fin_value y \<noteq> None) ys
         then Fin (sqrt_down (variance_of (map (\<lambda>y. the (fin_value y)) ys)))
         else NaN)"

definition mean0 :: "column \<Rightarrow> error + fvalue" where
  "mean0 c = (case float_values c of Some xs \<Rightarrow> Inr (mean_of xs) | None \<Rightarrow> Inl TypeError)"

definition median0 :: "column \<Rightarrow> error + fvalue" where
  "median0 c = (case float_values c of Some xs \<Rightarrow> Inr (median_of xs) | None \<Rightarrow> Inl TypeError)"

definition std0 :: "column \<Rightarrow> error + fvalue" where
  "std0 c = (case float_values c of Some xs \<Rightarrow> Inr (std_of xs) | None \<Rightarrow> Inl TypeError)"

definition sum0 :: "column \<Rightarrow> error + scalar" where
  "sum0 c =
     (case c of
        Int8Col xs \<Rightarrow> Inr (IntScalar (sum_list (map scast xs)))
      | Int16Col xs \<Rightarrow> Inr (IntScalar (sum_list (map scast xs)))
      | Int32Col xs \<Rightarrow> Inr (IntScalar (sum_list (map scast xs)))
      | Int64Col xs \<Rightarrow> Inr (IntScalar (sum_list xs))
      | _ \<Rightarrow> sum_other0 c)"

text \<open>
  Grouping, as \<open>groupby\<close> does it by default: rows with a missing key are left out and
  the groups come sorted by key. A group is its key and the positions of its rows.
\<close>

fun lex_le :: "nat list \<Rightarrow> nat list \<Rightarrow> bool" where
  "lex_le [] ys = True"
| "lex_le (x # xs) [] = False"
| "lex_le (x # xs) (y # ys) = (x < y \<or> (x = y \<and> lex_le xs ys))"

fun cell_key :: "cell \<Rightarrow> nat \<times> rat \<times> nat list" where
  "cell_key (IntCell n) = (0, of_int n, [])"
| "cell_key (FloatCell x) = (1 + fst (flt_key x), snd (flt_key x), [])"
| "cell_key (BoolCell b) = (5, if b then 1 else 0, [])"
| "cell_key (TimeCell NaT) = (6, 0, [])"
| "cell_key (TimeCell (Stamp t)) = (7, of_int t, [])"
| "cell_key (ObjCell Missing) = (8, 0, [])"
| "cell_key (ObjCell (Str s)) = (9, 0, map of_char s)"

definition key_lt :: "nat \<times> rat \<times> nat list \<Rightarrow> nat \<times> rat \<times> nat list \<Rightarrow> bool" where
  "key_lt a b =
     (fst a < fst b \<or>
      (fst a = fst b \<and>
         (fst (snd a) < fst (snd b) \<or>
          (fst (snd a) = fst (snd b) \<and> snd (snd a) \<noteq> snd (snd b) \<and>
             lex_le (snd (snd a)) (snd (snd b))))))"

fun row_le :: "cell list \<Rightarrow> cell list \<Rightarrow> bool" where
  "row_le [] ys = True"
| "row_le (x # xs) [] = False"
| "row_le (x # xs) (y # ys) =
     (key_lt (cell_key x) (cell_key y) \<or> (cell_key x = cell_key y \<and> row_le xs ys))"

fun add_group :: "'k \<Rightarrow> nat \<Rightarrow> ('k \<times> nat list) list \<Rightarrow> ('k \<times> nat list) list" where
  "add_group k i [] = [(k, [i])]"
| "add_group k i ((k', ps) # g) =
     (if k = k' then (k', ps @ [i]) # g else (k', ps) # add_group k i g)"

definition group_positions :: "cell list list \<Rightarrow> (cell list \<times> nat list) list" where
  "group_positions keys =
     sort_by (\<lambda>a b. row_le (fst a) (fst b))
       (foldl (\<lambda>g ki. add_group (fst ki) (snd ki) g) []
          (filter (\<lambda>ki. list_all (\<lambda>c. \<not> is_missing c) (fst ki))
             (zip keys [0..<length keys])))"

fun key_columns :: "dataframe \<Rightarrow> string list \<Rightarrow> error + column list" where
  "key_columns df [] = Inr []"
| "key_columns df (k # ks) =
     bind_err (getitem df k) (\<lambda>c. bind_err (key_columns df ks) (\<lambda>cs. Inr (c # cs)))"

definition key_rows :: "column list \<Rightarrow> nat \<Rightarrow> cell list list" where
  "key_rows cs n = map (\<lambda>i. map (\<lambda>c. cells c ! i) cs) [0..<n]"

fun sequence_err :: "(error + 'a) list \<Rightarrow> error + 'a list" where
  "sequence_err [] = Inr []"
| "sequence_err (x # xs) =
     bind_err x (\<lambda>v. bind_err (sequence_err xs) (\<lambda>vs. Inr (v # vs)))"

definition groupby_sum0 :: "dataframe \<Rightarrow> string list \<Rightarrow> string \<Rightarrow> error + grouped" where
  "groupby_sum0 df keys col =
     bind_err (key_columns df keys) (\<lambda>ks.
     bind_err (getitem df col) (\<lambda>c.
       sequence_err
         (map (\<lambda>g. bind_err (sum0 (col_take c (snd g))) (\<lambda>v. Inr (fst g, v)))
            (group_positions (key_rows ks (nrows df))))))"

text \<open>
  \<open>nlargest\<close> keeps the first \<open>n\<close> in descending order of value, earlier rows first
  among equal values, and leaves NaN out; \<open>subtract\<close> with \<open>fill_value=0\<close> stays in
  integers when both sides have the same keys and goes to floats otherwise.
\<close>

definition scalar_float :: "scalar \<Rightarrow> fvalue option" where
  "scalar_float v =
     (case v of
        IntScalar w \<Rightarrow> Some (Fin (of_int (sint w)))
      | FloatScalar x \<Rightarrow> Some x
      | ObjScalar x \<Rightarrow> None)"

definition scalar_int :: "scalar \<Rightarrow> int option" where
  "scalar_int v = (case v of IntScalar w \<Rightarrow> Some (sint w) | _ \<Rightarrow> None)"

definition nlargest0 :: "nat \<Rightarrow> grouped \<Rightarrow> error + grouped" where
  "nlargest0 n g =
     (if list_all (\<lambda>kv. scalar_float (snd kv) \<noteq> None) g
      then Inr (take n
             (sort_by (\<lambda>a b. \<not> flt_le (the (scalar_float (snd a))) (the (scalar_float (snd b)))
                              \<or> scalar_float (snd a) = scalar_float (snd b))
                (filter (\<lambda>kv. scalar_float (snd kv) \<noteq> Some NaN) g)))
      else Inl TypeError)"

definition float_at :: "grouped \<Rightarrow> cell list \<Rightarrow> fvalue" where
  "float_at g k = (case map_of g k of Some v \<Rightarrow> (case scalar_float v of Some x \<Rightarrow> x | None \<Rightarrow> NaN)
                                    | None \<Rightarrow> Fin 0)"

definition int_at :: "grouped \<Rightarrow> cell list \<Rightarrow> 64 word" where
  "int_at g k = (case map_of g k of Some (IntScalar w) \<Rightarrow> w | _ \<Rightarrow> 0)"

definition subtract_fill0 :: "grouped \<Rightarrow> grouped \<Rightarrow> error + grouped" where
  "subtract_fill0 a b =
     (if list_all (\<lambda>kv. scalar_float (snd kv) \<noteq> None) (a @ b) then
        (if set (map fst a) = set (map fst b) \<and>
            list_all (\<lambda>kv. scalar_int (snd kv) \<noteq> None) (a @ b)
         then Inr (map (\<lambda>k. (k, IntScalar (int_at a k - int_at b k))) (map fst a))
         else Inr (map (\<lambda>k. (k, FloatScalar (fadd (float_at a k) (fscale (- 1) (float_at b k)))))
                 (sort_by row_le (remdups (map fst a @ map fst b)))))
      else Inl TypeError)"

text \<open>
  The trend table: one row for each group of key values and year, with the sum, the mean
  and the count of the values, after \<open>reset_index\<close>.
\<close>

definition stamp_year :: "timestamp \<Rightarrow> cell" where
  "stamp_year t =
     (case t of NaT \<Rightarrow> TimeCell NaT | Stamp ns \<Rightarrow> IntCell (year_of_days (ns div ns_per_day)))"

fun cell_int :: "cell \<Rightarrow> int" where
  "cell_int (IntCell n) = n"
| "cell_int c = 0"

definition scalar_column :: "scalar list \<Rightarrow> column" where
  "scalar_column vs =
     (if list_all (\<lambda>v. scalar_int v \<noteq> None) vs
      then Int64Col (map (\<lambda>v. case v of IntScalar w \<Rightarrow> w | _ \<Rightarrow> 0) vs)
      else Float64Col (map (\<lambda>v. case scalar_float v of Some x \<Rightarrow> x | None \<Rightarrow> NaN) vs))"

definition count_of :: "column \<Rightarrow> nat" where
  "count_of c = length (filter (\<lambda>v. \<not> is_missing v) (cells c))"

definition groupby_year_agg0 ::
    "dataframe \<Rightarrow> string list \<Rightarrow> string \<Rightarrow> string \<Rightarrow> error + dataframe" where
  "groupby_year_agg0 df keys time_col value_col =
     bind_err (key_columns df keys) (\<lambda>ks.
     bind_err (getitem df time_col) (\<lambda>t.
     bind_err (getitem df value_col) (\<lambda>v.
       (case t of
          DatetimeCol ts \<Rightarrow>
            (let groups = group_positions
                   (map (\<lambda>ky. fst ky @ [snd ky])
                      (zip (key_rows ks (nrows df)) (map stamp_year ts)));
                 parts = map (\<lambda>g. col_take v (snd g)) groups
             in bind_err (sequence_err (map sum0 parts)) (\<lambda>totals.
                bind_err (sequence_err (map mean0 parts)) (\<lambda>means.
                  Inr \<lparr>index = [0..<length groups],
                       columns =
                         map (\<lambda>j. (keys ! j, col_take (ks ! j) (map (\<lambda>g. hd (snd g)) groups)))
                           [0..<length keys] @
                         [(time_col, Int32Col (map (\<lambda>g. word_of_int (cell_int (last (fst g)))) groups)),
                          (''sum'', scalar_column totals),
                          (''mean'', Float64Col means),
                          (''count'', Int64Col (map (\<lambda>c. of_nat (count_of c)) parts))]\<rparr>)))
        | _ \<Rightarrow> Inl TypeError))))"

definition L0 :: pandas where
  "L0 =
     \<lparr>to_datetime = to_datetime0,
      to_numeric_coerce = to_numeric0,
      to_numeric_downcast_float = downcast_float0,
      groupby_year_agg = groupby_year_agg0,
      sum_other = sum_other0,
      series_mean = mean0,
      series_median = median0,
      series_std = std0,
      groupby_sum = groupby_sum0,
      nlargest = nlargest0,
      subtract_fill = subtract_fill0\<rparr>"










section \<open>Example frames\<close>

text \<open>The frames of the repository's tests, cut down to a few rows.\<close>

definition labelled_frame :: dataframe where
  "labelled_frame =
     \<lparr>index = [0, 1, 2],
      columns = [(''Migration Count'', Int64Col [1, 2, 3]),
                 (''Origin-Country'', ObjectCol [Str ''A'', Str ''B'', Str ''C'']),
                 (''DESTINATION REGION'', ObjectCol [Str ''X'', Str ''Y'', Str ''Z''])]\<rparr>"

definition standardized_frame :: dataframe where
  "standardized_frame =
     \<lparr>index = [0, 1, 2],
      columns = [(''migration_count'', Int64Col [1, 2, 3]),
                 (''origin_country'', ObjectCol [Str ''A'', Str ''B'', Str ''C'']),
                 (''destination_region'', ObjectCol [Str ''X'', Str ''Y'', Str ''Z''])]\<rparr>"

definition repeated_frame :: dataframe where
  "repeated_frame =
     \<lparr>index = [0, 1, 2, 3],
      columns = [(''origin'', ObjectCol [Str ''A'', Str ''B'', Str ''A'', Missing]),
                 (''migration_count'', Int64Col [50, 47, 50, 50]),
                 (''distance_km'', Float64Col [Fin 100, NaN, Fin 100, NaN])]\<rparr>"

definition deduplicated_frame :: dataframe where
  "deduplicated_frame =
     \<lparr>index = [0, 1, 3],
      columns = [(''origin'', ObjectCol [Str ''A'', Str ''B'', Missing]),
                 (''migration_count'', Int64Col [50, 47, 50]),
                 (''distance_km'', Float64Col [Fin 100, NaN, NaN])]\<rparr>"

definition typed_frame :: dataframe where
  "typed_frame =
     \<lparr>index = [0, 1, 2],
      columns = [(''date'', ObjectCol [Str ''2020-01-01'', Str ''2020-02-01'', Str ''2020-03-01'']),
                 (''count'', ObjectCol [Str ''10'', Str ''20'', Str ''30'']),
                 (''category'', ObjectCol [Str ''A'', Str ''B'', Str ''A'']),
                 (''note'', ObjectCol [Str ''spring'', Missing, Str ''late'']),
                 (''origin'', ObjectCol [Str ''Country_A'', Str ''Country_B'', Str ''Country_A''])]\<rparr>"

definition typed_frame_validated :: dataframe where
  "typed_frame_validated =
     \<lparr>index = [0, 1, 2],
      columns = [(''date'', DatetimeCol [Stamp 1577836800000000000, Stamp 1580515200000000000,
                                          Stamp 1583020800000000000]),
                 (''count'', Int64Col [10, 20, 30]),
                 (''category'', CategoryCol (ObjectCol [Str ''A'', Str ''B'', Str ''A''])),
                 (''note'', ObjectCol [Str ''spring'', Missing, Str ''late'']),
                 (''origin'', ObjectCol [Str ''Country_A'', Str ''Country_B'', Str ''Country_A''])]\<rparr>"

definition typed_frame_expected :: "(string \<times> string) list" where
  "typed_frame_expected =
     [(''date'', ''datetime''), (''count'', ''numeric''), (''category'', ''category''),
      (''note'', ''datetime''), (''absent'', ''numeric'')]"

definition trend_frame :: dataframe where
  "trend_frame =
     \<lparr>index = [0, 1, 2, 3],
      columns = [(''date'', ObjectCol [Str ''2020-01-31'', Str ''2020-02-29'',
                                       Str ''2021-01-31'', Str ''2021-02-28'']),
                 (''origin'', ObjectCol [Str ''Country_A'', Str ''Country_B'',
                                         Str ''Country_A'', Str ''Country_A'']),
                 (''destination'', ObjectCol [Str ''Region_1'', Str ''Region_2'',
                                              Str ''Region_1'', Str ''Region_2'']),
                 (''migration_count'', Int64Col [50, 47, 52, 50])]\<rparr>"

definition trend_frame_dated :: dataframe where
  "trend_frame_dated =
     \<lparr>index = [0, 1, 2, 3],
      columns = [(''date'', DatetimeCol [Stamp 1580428800000000000, Stamp 1582934400000000000,
                                         Stamp 1612051200000000000, Stamp 1614470400000000000]),
                 (''origin'', ObjectCol [Str ''Country_A'', Str ''Country_B'',
                                         Str ''Country_A'', Str ''Country_A'']),
                 (''destination'', ObjectCol [Str ''Region_1'', Str ''Region_2'',
                                              Str ''Region_1'', Str ''Region_2'']),
                 (''migration_count'', Int64Col [50, 47, 52, 50])]\<rparr>"

definition trend_frame_trends :: dataframe where
  "trend_frame_trends =
     \<lparr>index = [0, 1, 2],
      columns = [(''origin'', ObjectCol [Str ''Country_A'', Str ''Country_A'', Str ''Country_B'']),
                 (''date'', Int32Col [2020, 2021, 2020]),
                 (''sum'', Int64Col [50, 102, 47]),
                 (''mean'', Float64Col [Fin 50, Fin 51, Fin 47]),
                 (''count'', Int64Col [1, 2, 1])]\<rparr>"

definition steady_frame :: dataframe where
  "steady_frame =
     \<lparr>index = [0, 1],
      columns = [(''origin'', ObjectCol [Str ''Country_A'', Str ''Country_B'']),
                 (''destination'', ObjectCol [Str ''Region_1'', Str ''Region_2'']),
                 (''migration_count'', Int64Col [50, 50])]\<rparr>"

text \<open>Two counts of \<open>2 ^ 62\<close> each.\<close>

definition overflow_frame :: dataframe where
  "overflow_frame =
     \<lparr>index = [0, 1],
      columns = [(''origin'', ObjectCol [Str ''Country_A'', Str ''Country_B'']),
                 (''destination'', ObjectCol [Str ''Region_1'', Str ''Region_2'']),
                 (''migration_count'', Int64Col [4611686018427387904, 4611686018427387904])]\<rparr>"

text \<open>A table read from a file that has a header line and no data rows.\<close>

definition header_only_frame :: dataframe where
  "header_only_frame = \<lparr>index = [], columns = [(''origin'', ObjectCol [])]\<rparr>"



section \<open>Notions used in the proofs\<close>

text \<open>
  What one pass of the \<open>try\<close> block leaves in a column of a frame with \<open>n\<close> rows:
  the converted column when the conversion returns one of the right length, the column as
  it was when the conversion or the assignment raises.
\<close>

definition converted :: "pandas \<Rightarrow> nat \<Rightarrow> string \<Rightarrow> column \<Rightarrow> column" where
  "converted L n expected_type c =
     (case (if expected_type = ''datetime'' then to_datetime L c
            else if expected_type = ''numeric'' then to_numeric_coerce L c
            else if expected_type = ''category'' then Inr (astype_category c)
            else Inr c) of
        Inl e \<Rightarrow> c
      | Inr c' \<Rightarrow> if col_len c' = n then c' else c)"

definition set_col :: "string \<Rightarrow> column \<Rightarrow> dataframe \<Rightarrow> dataframe" where
  "set_col col c df =
     df\<lparr>columns := map (\<lambda>nc. if fst nc = col then (col, c) else nc) (columns df)\<rparr>"

definition validated :: "pandas \<Rightarrow> (string \<times> string) list \<Rightarrow> dataframe \<Rightarrow> dataframe" where
  "validated L expected_types df =
     df\<lparr>columns :=
          map (\<lambda>nc. (fst nc, case map_of expected_types (fst nc) of
                               None \<Rightarrow> snd nc
                             | Some t \<Rightarrow> converted L (nrows df) t (snd nc)))
            (columns df)\<rparr>"

text \<open>The column that the first loop of \<open>optimize_dtypes\<close> leaves for a column of 64-bit integers.\<close>

definition narrowed :: "64 word list \<Rightarrow> column" where
  "narrowed xs =
     (let col_min = series_min xs; col_max = series_max xs
      in if ge_opt col_min (- 128) \<and> le_opt col_max 127 then Int8Col (map scast xs)
         else if ge_opt col_min (- 32768) \<and> le_opt col_max 32767 then Int16Col (map scast xs)
         else if ge_opt col_min (- 2147483648) \<and> le_opt col_max 2147483647
         then Int32Col (map scast xs)
         else Int64Col xs)"

text \<open>The values of an integer column, as mathematical integers.\<close>

definition int_values :: "column \<Rightarrow> int list option" where
  "int_values c =
     (case c of
        Int8Col xs \<Rightarrow> Some (map sint xs)
      | Int16Col xs \<Rightarrow> Some (map sint xs)
      | Int32Col xs \<Rightarrow> Some (map sint xs)
      | Int64Col xs \<Rightarrow> Some (map sint xs)
      | _ \<Rightarrow> None)"

text \<open>A loop body that at most assigns one column of one frame.\<close>

definition touches :: "ref \<Rightarrow> string \<Rightarrow> store \<Rightarrow> store \<Rightarrow> bool" where
  "touches r col s s' = (s' = s \<or> (\<exists>c. s' = s[r := set_col col c (s ! r)]))"

section \<open>Facts about the store\<close>

lemma nth_new: "(s @ [v]) ! length s = v"
  by simp

lemma nth_old: "i < length s \<Longrightarrow> (s @ [v]) ! i = s ! i"
  by (simp add: nth_append)

lemma update_new: "(s @ [v])[length s := w] = s @ [w]"
  by simp

section \<open>Properties of column-name standardisation\<close>

lemma lower_char_idem: "lower_char (lower_char c) = lower_char c"
proof -
  define n where "n = (of_char c :: nat)"
  show ?thesis
  proof (cases "(65 \<le> n \<and> n \<le> 90) \<or> (192 \<le> n \<and> n \<le> 222 \<and> n \<noteq> 215)")
    case True
    then have m: "(n + 32) mod 256 = n + 32" by auto
    have l: "lower_char c = char_of (n + 32)"
      using True by (auto simp: lower_char_def n_def Let_def)
    have "of_char (char_of (n + 32) :: char) = n + 32"
      using m by simp
    then have "lower_char (char_of (n + 32)) = char_of (n + 32)"
      using True by (auto simp: lower_char_def Let_def)
    then show ?thesis by (simp add: l)
  next
    case False
    then have "lower_char c = c"
      by (auto simp: lower_char_def n_def Let_def)
    then show ?thesis by simp
  qed
qed

lemma lower_char_underscore: "lower_char (CHR ''_'') = CHR ''_''"
  by (simp add: lower_char_def)

lemma standardize_name_map: "standardize_name n = map standardize_char n"
  by (simp add: standardize_name_def str_replace_def str_lower_def standardize_char_def
      Let_def)

lemma standardize_char_idem: "standardize_char (standardize_char c) = standardize_char c"
proof -
  have u: "standardize_char (CHR ''_'') = CHR ''_''"
    by (simp add: standardize_char_def lower_char_underscore)
  show ?thesis
  proof (cases "lower_char c = CHR '' '' \<or> lower_char c = CHR ''-''")
    case True
    then have "standardize_char c = CHR ''_''"
      by (auto simp: standardize_char_def)
    then show ?thesis using u by simp
  next
    case False
    then have e: "standardize_char c = lower_char c"
      by (simp add: standardize_char_def)
    have "standardize_char (lower_char c) = lower_char c"
      using False by (simp add: standardize_char_def lower_char_idem)
    then show ?thesis by (simp add: e)
  qed
qed

lemma standardize_name_idem: "standardize_name (standardize_name n) = standardize_name n"
  by (simp add: standardize_name_map standardize_char_idem)


text \<open>
  C3. Standardising the column names of a frame returns a new frame whose names are the
  old ones lower-cased, with every space and every hyphen replaced by an underscore, and
  whose index and column contents are those of the argument. Standardising the result
  once more returns a frame equal to it.
\<close>

theorem standardize_column_names_idempotent:
  assumes "df < length s"
  shows "\<exists>r1 s1 r2 s2.
           standardize_column_names s df = (Inr r1, s1) \<and>
           column_names (s1 ! r1) =
             map (\<lambda>n. str_replace (CHR ''-'') (CHR ''_'')
                        (str_replace (CHR '' '') (CHR ''_'') (str_lower n)))
               (column_names (s ! df)) \<and>
           map snd (columns (s1 ! r1)) = map snd (columns (s ! df)) \<and>
           index (s1 ! r1) = index (s ! df) \<and>
           standardize_column_names s1 r1 = (Inr r2, s2) \<and>
           s2 ! r2 = s1 ! r1"
proof -
  define names where "names = map standardize_name (column_names (s ! df))"
  define out where "out = (s ! df)\<lparr>columns := zip names (map snd (columns (s ! df)))\<rparr>"
  have l: "length names = length (columns (s ! df))"
    by (simp add: names_def column_names_def)
  have lc: "length (column_names (s ! df)) = length (columns (s ! df))"
    by (simp add: column_names_def)
  have c: "(s @ [s ! df]) ! length s = s ! df"
    by simp
  have first: "standardize_column_names s df = (Inr (length s), s @ [out])"
    unfolding standardize_column_names_def df_copy_def alloc_def set_columns_def
    using l lc by (simp add: c names_def [symmetric] out_def [symmetric])
  have cn: "column_names out = names"
    using l by (simp add: out_def column_names_def)
  have cs: "map snd (columns out) = map snd (columns (s ! df))"
    using l by (simp add: out_def)
  have ix: "index out = index (s ! df)"
    by (simp add: out_def)
  have again: "map standardize_name (column_names out) = names"
    unfolding cn by (simp add: names_def standardize_name_idem)
  have "zip names (map snd (columns out)) = columns out"
    using l by (simp add: out_def)
  then have same: "out\<lparr>columns := zip names (map snd (columns out))\<rparr> = out"
    by simp
  have lo: "length names = length (columns out)"
    using l by (simp add: out_def)
  have lco: "length (column_names out) = length (columns out)"
    by (simp add: column_names_def)
  have a1: "(s @ [out]) ! length s = out"
    by simp
  have a2: "((s @ [out]) @ [out]) ! Suc (length s) = out"
    using nth_append_length [of "s @ [out]" out] by simp
  have second: "standardize_column_names (s @ [out]) (length s)
      = (Inr (Suc (length s)), (s @ [out]) @ [out])"
    unfolding standardize_column_names_def df_copy_def alloc_def set_columns_def
    using lo lco a2 by (simp add: again same nth_append list_update_append)
  have nm: "names = map (\<lambda>n. str_replace (CHR ''-'') (CHR ''_'')
                        (str_replace (CHR '' '') (CHR ''_'') (str_lower n)))
               (column_names (s ! df))"
    by (simp add: names_def standardize_name_def)
  show ?thesis
    apply (rule exI [of _ "length s"])
    apply (rule exI [of _ "s @ [out]"])
    apply (rule exI [of _ "Suc (length s)"])
    apply (rule exI [of _ "(s @ [out]) @ [out]"])
    apply (simp only: first second a1 a2 cn cs ix nm [symmetric])
    done
qed

theorem standardize_column_names_idempotent_witness:
  "(0::nat) < length [labelled_frame] \<and>
   (\<exists>r1 s1 r2 s2.
      standardize_column_names [labelled_frame] 0 = (Inr r1, s1) \<and>
      column_names (s1 ! r1) = [''migration_count'', ''origin_country'', ''destination_region''] \<and>
      standardize_column_names s1 r1 = (Inr r2, s2) \<and>
      s2 ! r2 = s1 ! r1 \<and> s2 ! r2 = standardized_frame)"
proof -
  have h: "(0::nat) < length [labelled_frame]"
    by simp
  have e: "standardize_column_names [labelled_frame] 0
      = (Inr 1, [labelled_frame, standardized_frame])"
    by code_simp
  have n: "column_names standardized_frame
      = [''migration_count'', ''origin_country'', ''destination_region'']"
    by code_simp
  show ?thesis
    using standardize_column_names_idempotent [OF h] h n unfolding e by auto
qed

section \<open>Properties of deduplication\<close>

lemma length_cells: "length (cells c) = col_len c"
  by (induction c) simp_all

lemma col_len_col_take: "col_len (col_take c ps) = length ps"
  by (induction c) simp_all

lemma cells_col_take:
  "\<forall>i\<in>set ps. i < col_len c \<Longrightarrow> cells (col_take c ps) = map (nth (cells c)) ps"
  by (induction c) simp_all

lemma col_take_all: "col_take c [0..<col_len c] = c"
  by (induction c) (simp_all add: map_nth)

lemma wf_take_rows: "wf_frame (take_rows df ps)"
  by (simp add: wf_frame_def take_rows_def nrows_def list_all_iff col_len_col_take)

lemma nrows_take_rows: "nrows (take_rows df ps) = length ps"
  by (simp add: nrows_def take_rows_def)

lemma take_rows_all:
  assumes "wf_frame df"
  shows "take_rows df [0..<nrows df] = df"
proof -
  have "col_take (snd nc) [0..<nrows df] = snd nc" if "nc \<in> set (columns df)" for nc
  proof -
    have "col_len (snd nc) = nrows df"
      using assms that by (simp add: wf_frame_def list_all_iff)
    then show ?thesis
      using col_take_all [of "snd nc"] by simp
  qed
  then have "map (\<lambda>nc. (fst nc, col_take (snd nc) [0..<nrows df])) (columns df) = columns df"
    by (intro map_idI) simp
  then show ?thesis
    by (simp add: take_rows_def nrows_def map_nth)
qed

lemma row_at_take_rows:
  assumes "wf_frame df" "\<forall>i\<in>set ps. i < nrows df" "k < length ps"
  shows "row_at (take_rows df ps) k = row_at df (ps ! k)"
  using assms
  by (auto simp: row_at_def take_rows_def wf_frame_def list_all_iff cells_col_take)

lemma rows_take_rows:
  assumes "wf_frame df" "\<forall>i\<in>set ps. i < nrows df"
  shows "map (row_at (take_rows df ps)) [0..<length ps] = map (row_at df) ps"
proof -
  have "map (row_at (take_rows df ps)) [0..<length ps]
      = map (\<lambda>k. row_at df (ps ! k)) [0..<length ps]"
    using assms by (intro map_cong) (simp_all add: row_at_take_rows)
  also have "\<dots> = map (row_at df) (map (nth ps) [0..<length ps])"
    by simp
  also have "\<dots> = map (row_at df) ps"
    by (simp only: map_nth)
  finally show ?thesis .
qed

lemma length_seen_before: "length (seen_before seen rs) = length rs"
  by (induction rs arbitrary: seen) simp_all

lemma seen_before_nth:
  "i < length rs \<Longrightarrow> seen_before seen rs ! i \<longleftrightarrow> rs ! i \<in> set seen \<union> set (take i rs)"
proof (induction rs arbitrary: seen i)
  case Nil
  then show ?case by simp
next
  case (Cons r rs)
  show ?case
  proof (cases i)
    case 0
    then show ?thesis by simp
  next
    case (Suc j)
    then show ?thesis using Cons by auto
  qed
qed

lemma seen_before_distinct:
  "distinct rs \<Longrightarrow> set rs \<inter> set seen = {} \<Longrightarrow>
     seen_before seen rs = replicate (length rs) False"
  by (induction rs arbitrary: seen) auto

lemma kept_range: "\<forall>i\<in>set (kept df). i < nrows df"
  by (auto simp: kept_def)

lemma kept_sorted: "sorted_wrt (<) (kept df)"
  unfolding kept_def by (rule sorted_wrt_filter) (simp add: sorted_wrt_upt)

lemma duplicated_nth:
  "i < nrows df \<Longrightarrow> duplicated df ! i \<longleftrightarrow> (\<exists>j<i. row_at df j = row_at df i)"
  by (auto simp: duplicated_def seen_before_nth in_set_conv_nth)

lemma dropped_is_duplicate:
  "i < nrows df \<Longrightarrow> i \<notin> set (kept df) \<Longrightarrow> \<exists>j<i. row_at df j = row_at df i"
  by (simp add: kept_def duplicated_nth)

lemma kept_rows_distinct: "distinct (map (row_at df) (kept df))"
proof -
  have "row_at df (kept df ! a) \<noteq> row_at df (kept df ! b)"
    if "a < b" "b < length (kept df)" for a b
  proof -
    have lt: "kept df ! a < kept df ! b"
      using that kept_sorted [of df] by (simp add: sorted_wrt_iff_nth_less)
    have "kept df ! b \<in> set (kept df)"
      using that by simp
    then have "kept df ! b < nrows df" "\<not> duplicated df ! (kept df ! b)"
      by (auto simp: kept_def)
    then show ?thesis
      using lt by (auto simp: duplicated_nth)
  qed
  then have "map (row_at df) (kept df) ! a \<noteq> map (row_at df) (kept df) ! b"
    if "a < b" "b < length (kept df)" for a b
    using that by simp
  then show ?thesis
    unfolding distinct_conv_nth length_map by (metis nat_neq_iff)
qed

lemma duplicated_take_kept:
  assumes "wf_frame df"
  shows "duplicated (take_rows df (kept df)) = replicate (length (kept df)) False"
proof -
  have "map (row_at (take_rows df (kept df))) [0..<length (kept df)]
      = map (row_at df) (kept df)"
    using assms kept_range by (rule rows_take_rows)
  then show ?thesis
    using seen_before_distinct [OF kept_rows_distinct [of df], of "[]"]
    by (simp add: duplicated_def nrows_take_rows)
qed

lemma drop_duplicates_frame_idem:
  assumes "wf_frame df"
  shows "drop_duplicates_frame (drop_duplicates_frame df) = drop_duplicates_frame df"
proof (cases "columns df = [] \<or> index df = []")
  case True
  then show ?thesis by (simp add: drop_duplicates_frame_def)
next
  case False
  define out where "out = take_rows df (kept df)"
  have o: "drop_duplicates_frame df = out"
    using False by (simp add: drop_duplicates_frame_def out_def kept_def)
  have n: "nrows out = length (kept df)"
    by (simp add: out_def nrows_take_rows)
  have "filter (\<lambda>i. \<not> duplicated out ! i) [0..<nrows out] = [0..<nrows out]"
    using duplicated_take_kept [OF assms] by (simp add: out_def [symmetric] n)
  then have "drop_duplicates_frame out = out"
    using take_rows_all [of out] wf_take_rows [of df "kept df"]
    by (simp add: drop_duplicates_frame_def out_def [symmetric])
  then show ?thesis by (simp add: o)
qed

lemma drop_duplicates_frame_positions:
  assumes "wf_frame df"
  shows "\<exists>ps. drop_duplicates_frame df = take_rows df ps \<and> sorted_wrt (<) ps \<and>
           (\<forall>i\<in>set ps. i < nrows df) \<and>
           (\<forall>i<nrows df. i \<notin> set ps \<longrightarrow> (\<exists>j<i. row_at df j = row_at df i))"
proof (cases "columns df = [] \<or> index df = []")
  case True
  then have "drop_duplicates_frame df = take_rows df [0..<nrows df]"
    using take_rows_all [OF assms] by (simp add: drop_duplicates_frame_def)
  then show ?thesis
    by (intro exI [of _ "[0..<nrows df]"]) (simp add: sorted_wrt_upt)
next
  case False
  then have "drop_duplicates_frame df = take_rows df (kept df)"
    by (simp add: drop_duplicates_frame_def kept_def)
  then show ?thesis
    using kept_sorted [of df] kept_range [of df] dropped_is_duplicate [of _ df]
    by (intro exI [of _ "kept df"]) blast
qed

lemma wf_drop_duplicates_frame: "wf_frame df \<Longrightarrow> wf_frame (drop_duplicates_frame df)"
  by (simp add: drop_duplicates_frame_def wf_take_rows)

lemma clean_migration_data_eq:
  "df < length s \<Longrightarrow>
     clean_migration_data s df
       = (Suc (length s), s @ [s ! df, drop_duplicates_frame (s ! df)])"
  by (simp add: clean_migration_data_def df_copy_def drop_duplicates_def alloc_def nth_append)

lemma nth_second_new: "(s @ [a, b]) ! Suc (length s) = b"
  using nth_append_length [of "s @ [a]" b] by simp

text \<open>
  C2. Cleaning a well-formed frame returns the frame restricted to an increasing list of
  row positions: every kept row is a row of the argument, with its label and all its
  values, in the original order, and the columns are the same. A row position that is
  not kept holds a row equal, value by value, to a row at an earlier position. Cleaning
  the result once more returns a frame equal to it.
\<close>

theorem clean_migration_data_drops_only_duplicates:
  assumes "df < length s" and "wf_frame (s ! df)"
  shows "\<exists>r s' ps r2 s2.
           clean_migration_data s df = (r, s') \<and>
           s' ! r = take_rows (s ! df) ps \<and>
           sorted_wrt (<) ps \<and>
           (\<forall>i\<in>set ps. i < nrows (s ! df)) \<and>
           (\<forall>i<nrows (s ! df). i \<notin> set ps \<longrightarrow>
              (\<exists>j<i. row_at (s ! df) j = row_at (s ! df) i)) \<and>
           clean_migration_data s' r = (r2, s2) \<and>
           s2 ! r2 = s' ! r"
proof -
  define out where "out = drop_duplicates_frame (s ! df)"
  define s' where "s' = s @ [s ! df, out]"
  obtain ps where ps: "out = take_rows (s ! df) ps" "sorted_wrt (<) ps"
      "\<forall>i\<in>set ps. i < nrows (s ! df)"
      "\<forall>i<nrows (s ! df). i \<notin> set ps \<longrightarrow> (\<exists>j<i. row_at (s ! df) j = row_at (s ! df) i)"
    using drop_duplicates_frame_positions [OF assms(2)] unfolding out_def by blast
  have first: "clean_migration_data s df = (Suc (length s), s')"
    using assms(1) by (simp add: clean_migration_data_eq s'_def out_def)
  have at: "s' ! Suc (length s) = out"
    by (simp add: s'_def nth_second_new)
  have lt: "Suc (length s) < length s'"
    by (simp add: s'_def)
  have "drop_duplicates_frame out = out"
    using drop_duplicates_frame_idem [OF assms(2)] by (simp add: out_def)
  then have second: "clean_migration_data s' (Suc (length s))
      = (Suc (length s'), s' @ [out, out])"
    using clean_migration_data_eq [OF lt] by (simp add: at)
  have at2: "(s' @ [out, out]) ! Suc (length s') = out"
    by (rule nth_second_new)
  show ?thesis
    apply (rule exI [of _ "Suc (length s)"])
    apply (rule exI [of _ s'])
    apply (rule exI [of _ ps])
    apply (rule exI [of _ "Suc (length s')"])
    apply (rule exI [of _ "s' @ [out, out]"])
    apply (simp only: first second at at2)
    using ps apply blast
    done
qed

theorem clean_migration_data_drops_only_duplicates_witness:
  "(0::nat) < length [repeated_frame] \<and> wf_frame ([repeated_frame] ! 0) \<and>
   (\<exists>r s' ps r2 s2.
      clean_migration_data [repeated_frame] 0 = (r, s') \<and>
      s' ! r = take_rows ([repeated_frame] ! 0) ps \<and>
      s' ! r = deduplicated_frame \<and>
      clean_migration_data s' r = (r2, s2) \<and>
      s2 ! r2 = s' ! r)"
proof -
  have h: "(0::nat) < length [repeated_frame]"
    by simp
  have w: "wf_frame ([repeated_frame] ! 0)"
    by code_simp
  have e: "clean_migration_data [repeated_frame] 0
      = (2, [repeated_frame, repeated_frame, deduplicated_frame])"
    by code_simp
  show ?thesis
    using clean_migration_data_drops_only_duplicates [OF h w] h w unfolding e by auto
qed

section \<open>Properties of type validation\<close>

lemma getitem_member:
  assumes "distinct (column_names df)"
  shows "(getitem df n = Inr c) = ((n, c) \<in> set (columns df))"
proof -
  have "(map_of (columns df) n = Some c) = ((n, c) \<in> set (columns df))"
    using assms by (simp add: column_names_def)
  then show ?thesis
    by (cases "map_of (columns df) n") (auto simp: getitem_def)
qed

lemma getitem_present:
  "n \<in> set (column_names df) \<Longrightarrow> \<exists>c. getitem df n = Inr c"
  by (auto simp: getitem_def column_names_def split: option.splits
      dest: weak_map_of_SomeI simp: map_of_eq_None_iff)

lemma replace_col_map:
  "distinct (map fst cols) \<Longrightarrow> col \<in> fst ` set cols \<Longrightarrow>
     replace_col col c cols = map (\<lambda>nc. if fst nc = col then (col, c) else nc) cols"
proof (induction cols)
  case Nil
  then show ?case by simp
next
  case (Cons a cols)
  obtain n d where a: "a = (n, d)" by (cases a)
  show ?case
  proof (cases "n = col")
    case True
    then have "col \<notin> fst ` set cols"
      using Cons.prems a by auto
    then have "map (\<lambda>nc. if fst nc = col then (col, c) else nc) cols = cols"
      by (intro map_idI) auto
    then show ?thesis using True a by simp
  next
    case False
    then show ?thesis using Cons a by auto
  qed
qed

lemma set_col_same:
  "distinct (column_names df) \<Longrightarrow> getitem df col = Inr c \<Longrightarrow> set_col col c df = df"
proof -
  assume d: "distinct (column_names df)" and g: "getitem df col = Inr c"
  have "map (\<lambda>nc. if fst nc = col then (col, c) else nc) (columns df) = columns df"
  proof (intro map_idI)
    fix nc assume m: "nc \<in> set (columns df)"
    show "(if fst nc = col then (col, c) else nc) = nc"
    proof (cases "fst nc = col")
      case True
      then have "(col, snd nc) \<in> set (columns df)" using m by (metis prod.collapse)
      then have "getitem df col = Inr (snd nc)" using d by (simp add: getitem_member)
      then show ?thesis using g True by (metis Inr_inject prod.collapse)
    next
      case False
      then show ?thesis by simp
    qed
  qed
  then show ?thesis by (simp add: set_col_def)
qed

lemma setitem_set_col:
  assumes "distinct (column_names (s ! r))" "col \<in> set (column_names (s ! r))"
    "col_len c = nrows (s ! r)"
  shows "setitem s r col c = Inr (s[r := set_col col c (s ! r)])"
  using assms replace_col_map [of "columns (s ! r)" col c]
  by (simp add: setitem_def set_col_def column_names_def)

lemma convert_column_step:
  assumes d: "distinct (column_names (s ! r))" and g: "getitem (s ! r) col = Inr c"
  shows "(case convert_column L s r col t of Inl e \<Rightarrow> s | Inr s' \<Rightarrow> s')
           = s[r := set_col col (converted L (nrows (s ! r)) t c) (s ! r)]"
proof -
  have m: "col \<in> set (column_names (s ! r))"
    using g d by (force simp: getitem_member column_names_def)
  have same: "s[r := set_col col c (s ! r)] = s"
    using set_col_same [OF d g] by simp
  have assign: "(case setitem s r col c' of Inl e \<Rightarrow> s | Inr s' \<Rightarrow> s')
      = s[r := set_col col (if col_len c' = nrows (s ! r) then c' else c) (s ! r)]" for c'
  proof (cases "col_len c' = nrows (s ! r)")
    case True
    then show ?thesis using setitem_set_col [OF d m True] by simp
  next
    case False
    then show ?thesis using same by (simp add: setitem_def)
  qed
  show ?thesis
  proof (cases "t = ''datetime''")
    case True
    show ?thesis
    proof (cases "to_datetime L c")
      case (Inl e)
      then show ?thesis using True g same
        by (simp add: convert_column_def bind_err_def converted_def)
    next
      case (Inr c')
      then show ?thesis using True g assign [of c']
        by (simp add: convert_column_def bind_err_def converted_def)
    qed
  next
    case nd: False
    show ?thesis
    proof (cases "t = ''numeric''")
      case True
      show ?thesis
      proof (cases "to_numeric_coerce L c")
        case (Inl e)
        then show ?thesis using True g same
          by (simp add: convert_column_def bind_err_def converted_def)
      next
        case (Inr c')
        then show ?thesis using True g assign [of c']
          by (simp add: convert_column_def bind_err_def converted_def)
      qed
    next
      case nn: False
      show ?thesis
      proof (cases "t = ''category''")
        case True
        then show ?thesis using nd nn g assign [of "astype_category c"]
          by (simp add: convert_column_def bind_err_def converted_def)
      next
        case False
        then show ?thesis using nd nn g same
          by (simp add: convert_column_def bind_err_def converted_def)
      qed
    qed
  qed
qed


lemma column_names_set_col: "column_names (set_col col c df) = column_names df"
  by (simp add: set_col_def column_names_def comp_def if_distrib [of fst] cong: if_cong)

lemma nrows_set_col: "nrows (set_col col c df) = nrows df"
  by (simp add: set_col_def nrows_def)

lemma column_names_validated: "column_names (validated L ets df) = column_names df"
  by (simp add: validated_def column_names_def comp_def)

lemma index_validated: "index (validated L ets df) = index df"
  by (simp add: validated_def)

lemma validated_Nil: "validated L [] df = df"
  by (simp add: validated_def)

lemma validated_skip:
  assumes "col \<notin> set (column_names df)"
  shows "validated L ((col, t) # rest) df = validated L rest df"
proof -
  have "fst nc \<noteq> col" if "nc \<in> set (columns df)" for nc
    using assms that by (auto simp: column_names_def)
  then show ?thesis
    by (auto simp: validated_def intro!: map_cong)
qed

lemma validated_step:
  assumes d: "distinct (column_names df)" and g: "getitem df col = Inr c"
    and k: "col \<notin> fst ` set rest"
  shows "validated L rest (set_col col (converted L (nrows df) t c) df)
           = validated L ((col, t) # rest) df"
proof -
  define c1 where "c1 = converted L (nrows df) t c"
  define F where "F = (\<lambda>nc :: string \<times> column. (fst nc, case map_of rest (fst nc) of
      None \<Rightarrow> snd nc | Some t' \<Rightarrow> converted L (nrows df) t' (snd nc)))"
  define G where "G = (\<lambda>nc :: string \<times> column. if fst nc = col then (col, c1) else nc)"
  define H where "H = (\<lambda>nc :: string \<times> column. (fst nc, case map_of ((col, t) # rest) (fst nc) of
      None \<Rightarrow> snd nc | Some t' \<Rightarrow> converted L (nrows df) t' (snd nc)))"
  have none: "map_of rest col = None"
    using k by (simp add: map_of_eq_None_iff)
  have same: "snd nc = c" if "nc \<in> set (columns df)" "fst nc = col" for nc
  proof -
    have "(col, snd nc) \<in> set (columns df)"
      using that by (metis prod.collapse)
    then have "getitem df col = Inr (snd nc)"
      using d by (simp add: getitem_member)
    then show ?thesis using g by simp
  qed
  have "F (G nc) = H nc" if "nc \<in> set (columns df)" for nc
  proof (cases "fst nc = col")
    case True
    then show ?thesis
      using same [OF that True] none by (simp add: F_def G_def H_def c1_def)
  next
    case False
    then show ?thesis by (simp add: F_def G_def H_def)
  qed
  then have m: "map F (map G (columns df)) = map H (columns df)"
    unfolding map_map by (intro map_cong) simp_all
  have v1: "validated L rest (set_col col c1 df) = df\<lparr>columns := map F (map G (columns df))\<rparr>"
    by (simp add: validated_def set_col_def nrows_def F_def G_def cong: option.case_cong)
  have v2: "validated L ((col, t) # rest) df = df\<lparr>columns := map H (columns df)\<rparr>"
    by (simp add: validated_def H_def)
  show ?thesis
    unfolding c1_def [symmetric] v1 v2 m ..
qed

lemma validate_loop_eq:
  assumes "r < length s" "distinct (column_names (s ! r))" "distinct (map fst ets)"
  shows "validate_loop L s r ets = s[r := validated L ets (s ! r)]"
  using assms
proof (induction ets arbitrary: s)
  case Nil
  then show ?case by (simp add: validated_Nil)
next
  case (Cons a rest)
  obtain col t where a: "a = (col, t)" by (cases a)
  have dr: "distinct (map fst rest)" and k: "col \<notin> fst ` set rest"
    using Cons.prems(3) a by auto
  show ?case
  proof (cases "col \<in> set (column_names (s ! r))")
    case False
    then show ?thesis
      using Cons.IH [OF Cons.prems(1,2) dr] a by (simp add: validated_skip)
  next
    case True
    then obtain c where g: "getitem (s ! r) col = Inr c"
      using getitem_present by blast
    define s1 where "s1 = s[r := set_col col (converted L (nrows (s ! r)) t c) (s ! r)]"
    have step: "(case convert_column L s r col t of Inl e \<Rightarrow> s | Inr s' \<Rightarrow> s') = s1"
      unfolding s1_def by (rule convert_column_step [OF Cons.prems(2) g])
    have loop: "validate_loop L s r (a # rest) = validate_loop L s1 r rest"
      using True step a by (cases "convert_column L s r col t") simp_all
    have r1: "r < length s1"
      using Cons.prems(1) by (simp add: s1_def)
    have at: "s1 ! r = set_col col (converted L (nrows (s ! r)) t c) (s ! r)"
      using Cons.prems(1) by (simp add: s1_def)
    have d1: "distinct (column_names (s1 ! r))"
      using Cons.prems(2) by (simp add: at column_names_set_col)
    have "validate_loop L s1 r rest = s1[r := validated L rest (s1 ! r)]"
      by (rule Cons.IH [OF r1 d1 dr])
    also have "\<dots> = s[r := validated L rest (s1 ! r)]"
      by (simp add: s1_def)
    also have "validated L rest (s1 ! r) = validated L (a # rest) (s ! r)"
      unfolding at a by (rule validated_step [OF Cons.prems(2) g k])
    finally show ?thesis using loop by simp
  qed
qed

lemma validate_data_types_eq:
  assumes "df < length s" "distinct (column_names (s ! df))" "distinct (map fst ets)"
  shows "validate_data_types L s df ets = (Inr (length s), s @ [validated L ets (s ! df)])"
proof -
  have "validate_loop L (s @ [s ! df]) (length s) ets
      = (s @ [s ! df])[length s := validated L ets ((s @ [s ! df]) ! length s)]"
    using assms by (intro validate_loop_eq) simp_all
  then show ?thesis
    by (simp add: validate_data_types_def df_copy_def alloc_def)
qed

lemma getitem_validated:
  assumes d: "distinct (column_names df)" and g: "getitem df n = Inr c"
  shows "getitem (validated L ets df) n
           = Inr (case map_of ets n of None \<Rightarrow> c | Some t \<Rightarrow> converted L (nrows df) t c)"
proof -
  define F where "F = (\<lambda>nc :: string \<times> column. (fst nc, case map_of ets (fst nc) of
      None \<Rightarrow> snd nc | Some t \<Rightarrow> converted L (nrows df) t (snd nc)))"
  have "(n, c) \<in> set (columns df)"
    using d g by (simp add: getitem_member)
  then have "F (n, c) \<in> F ` set (columns df)"
    by (rule imageI)
  moreover have "F (n, c)
      = (n, case map_of ets n of None \<Rightarrow> c | Some t \<Rightarrow> converted L (nrows df) t c)"
    by (simp add: F_def cong: option.case_cong)
  moreover have "set (columns (validated L ets df)) = F ` set (columns df)"
    by (simp add: validated_def F_def)
  ultimately have "(n, case map_of ets n of None \<Rightarrow> c | Some t \<Rightarrow> converted L (nrows df) t c)
      \<in> set (columns (validated L ets df))"
    by simp
  moreover have "distinct (column_names (validated L ets df))"
    using d by (simp add: column_names_validated)
  ultimately show ?thesis
    by (simp add: getitem_member)
qed


lemma col_len_astype_category: "col_len (astype_category c) = col_len c"
  by (cases c) simp_all

text \<open>
  C7. Whatever the conversions of the library do, validating the types of a frame with
  distinct column labels against a dictionary of expected types returns a new frame and
  raises nothing. The result has the labels and the index of the argument. A column that
  the dictionary does not name is returned as it was, and so is a column whose conversion
  to datetime or to a number raises. A conversion that returns a column of the frame's
  length replaces the column.
\<close>

theorem validate_data_types_never_raises:
  assumes "df < length s" and "distinct (column_names (s ! df))"
    and "distinct (map fst expected_types)"
  shows "\<exists>r s'.
           validate_data_types L s df expected_types = (Inr r, s') \<and>
           column_names (s' ! r) = column_names (s ! df) \<and>
           index (s' ! r) = index (s ! df) \<and>
           (\<forall>n c. getitem (s ! df) n = Inr c \<longrightarrow>
              (map_of expected_types n = None \<longrightarrow> getitem (s' ! r) n = Inr c) \<and>
              (map_of expected_types n = Some ''datetime'' \<and> isl (to_datetime L c) \<longrightarrow>
                 getitem (s' ! r) n = Inr c) \<and>
              (map_of expected_types n = Some ''numeric'' \<and> isl (to_numeric_coerce L c) \<longrightarrow>
                 getitem (s' ! r) n = Inr c) \<and>
              (\<forall>c'. map_of expected_types n = Some ''datetime'' \<and> to_datetime L c = Inr c' \<and>
                    col_len c' = nrows (s ! df) \<longrightarrow> getitem (s' ! r) n = Inr c') \<and>
              (\<forall>c'. map_of expected_types n = Some ''numeric'' \<and> to_numeric_coerce L c = Inr c' \<and>
                    col_len c' = nrows (s ! df) \<longrightarrow> getitem (s' ! r) n = Inr c') \<and>
              (map_of expected_types n = Some ''category'' \<and> col_len c = nrows (s ! df) \<longrightarrow>
                 getitem (s' ! r) n = Inr (astype_category c)))"
proof -
  define out where "out = validated L expected_types (s ! df)"
  have run: "validate_data_types L s df expected_types = (Inr (length s), s @ [out])"
    unfolding out_def by (rule validate_data_types_eq [OF assms])
  have at: "(s @ [out]) ! length s = out"
    by simp
  have names: "column_names out = column_names (s ! df)"
    by (simp add: out_def column_names_validated)
  have idx: "index out = index (s ! df)"
    by (simp add: out_def index_validated)
  have cols: "(map_of expected_types n = None \<longrightarrow> getitem out n = Inr c) \<and>
      (map_of expected_types n = Some ''datetime'' \<and> isl (to_datetime L c) \<longrightarrow>
         getitem out n = Inr c) \<and>
      (map_of expected_types n = Some ''numeric'' \<and> isl (to_numeric_coerce L c) \<longrightarrow>
         getitem out n = Inr c) \<and>
      (\<forall>c'. map_of expected_types n = Some ''datetime'' \<and> to_datetime L c = Inr c' \<and>
            col_len c' = nrows (s ! df) \<longrightarrow> getitem out n = Inr c') \<and>
      (\<forall>c'. map_of expected_types n = Some ''numeric'' \<and> to_numeric_coerce L c = Inr c' \<and>
            col_len c' = nrows (s ! df) \<longrightarrow> getitem out n = Inr c') \<and>
      (map_of expected_types n = Some ''category'' \<and> col_len c = nrows (s ! df) \<longrightarrow>
         getitem out n = Inr (astype_category c))"
    if g: "getitem (s ! df) n = Inr c" for n c
    unfolding out_def getitem_validated [OF assms(2) g]
    by (auto simp: converted_def isl_def col_len_astype_category)
  show ?thesis
    apply (rule exI [of _ "length s"])
    apply (rule exI [of _ "s @ [out]"])
    apply (simp only: run at names idx)
    using cols apply blast
    done
qed

theorem validate_data_types_never_raises_witness:
  "(0::nat) < length [typed_frame] \<and> distinct (column_names ([typed_frame] ! 0)) \<and>
   distinct (map fst typed_frame_expected) \<and>
   (\<exists>r s'.
      validate_data_types L0 [typed_frame] 0 typed_frame_expected = (Inr r, s') \<and>
      s' ! r = typed_frame_validated \<and>
      map_of typed_frame_expected ''note'' = Some ''datetime'' \<and>
      to_datetime L0 (ObjectCol [Str ''spring'', Missing, Str ''late'']) = Inl ValueError \<and>
      getitem (s' ! r) ''note'' = getitem typed_frame ''note'' \<and>
      map_of typed_frame_expected ''origin'' = None \<and>
      getitem (s' ! r) ''origin'' = getitem typed_frame ''origin'')"
proof -
  have h1: "(0::nat) < length [typed_frame]"
    by simp
  have h2: "distinct (column_names ([typed_frame] ! 0))"
    by code_simp
  have h3: "distinct (map fst typed_frame_expected)"
    by code_simp
  have e: "validate_data_types L0 [typed_frame] 0 typed_frame_expected
      = (Inr 1, [typed_frame, typed_frame_validated])"
    by code_simp
  have m: "map_of typed_frame_expected ''note'' = Some ''datetime''"
      "map_of typed_frame_expected ''origin'' = None"
    by code_simp+
  have f: "to_datetime L0 (ObjectCol [Str ''spring'', Missing, Str ''late'']) = Inl ValueError"
    by code_simp
  have g: "getitem typed_frame_validated ''note'' = getitem typed_frame ''note''"
      "getitem typed_frame_validated ''origin'' = getitem typed_frame ''origin''"
    by code_simp+
  show ?thesis
    using validate_data_types_never_raises [OF h1 h2 h3, of L0] h1 h2 h3 m f g
    unfolding e by auto
qed

section \<open>The arguments are left alone\<close>

lemma setitem_new:
  "setitem (s @ [v]) (length s) col c = Inl ValueError \<or>
   (\<exists>v'. setitem (s @ [v]) (length s) col c = Inr (s @ [v']))"
  by (simp add: setitem_def)

lemma convert_column_new:
  "(\<exists>e. convert_column L (s @ [v]) (length s) col t = Inl e) \<or>
   (\<exists>v'. convert_column L (s @ [v]) (length s) col t = Inr (s @ [v']))"
proof -
  have a: "(\<exists>e. bind_err m (\<lambda>c. setitem (s @ [v]) (length s) col (f c)) = Inl e) \<or>
      (\<exists>v'. bind_err m (\<lambda>c. setitem (s @ [v]) (length s) col (f c)) = Inr (s @ [v']))"
    for m :: "error + column" and f
    using setitem_new [of s v col] by (cases m) (auto simp: bind_err_def)
  have b: "(\<exists>e. bind_err m (\<lambda>c. bind_err (g c) (\<lambda>c'. setitem (s @ [v]) (length s) col c')) = Inl e) \<or>
      (\<exists>v'. bind_err m (\<lambda>c. bind_err (g c) (\<lambda>c'. setitem (s @ [v]) (length s) col c')) = Inr (s @ [v']))"
    for m :: "error + column" and g :: "column \<Rightarrow> error + column"
  proof (cases m)
    case (Inl e)
    then show ?thesis by (simp add: bind_err_def)
  next
    case (Inr c)
    then show ?thesis
      using a [of "g c" "\<lambda>c. c"] by (simp add: bind_err_def)
  qed
  show ?thesis
    unfolding convert_column_def
    using a [of "getitem ((s @ [v]) ! length s) col" astype_category]
      b [of "getitem ((s @ [v]) ! length s) col" "to_datetime L"]
      b [of "getitem ((s @ [v]) ! length s) col" "to_numeric_coerce L"]
    by auto
qed

lemma validate_loop_new:
  "\<exists>v'. validate_loop L (s @ [v]) (length s) ets = s @ [v']"
proof (induction ets arbitrary: v)
  case Nil
  then show ?case by simp
next
  case (Cons a ets)
  obtain col t where a: "a = (col, t)" by (cases a)
  show ?case
    using convert_column_new [of L s v col t] Cons.IH
    unfolding a by (auto simp del: nth_append_length)
qed

lemma frame_new: "take (length s) (s @ vs) = s"
  by simp


lemma clean_migration_data_frame:
  assumes "df < length s"
  shows "take (length s) (snd (clean_migration_data s df)) = s \<and>
         length s \<le> fst (clean_migration_data s df) \<and>
         fst (clean_migration_data s df) < length (snd (clean_migration_data s df))"
  by (simp add: clean_migration_data_eq [OF assms])

lemma standardize_column_names_frame:
  "take (length s) (snd (standardize_column_names s df)) = s \<and>
   (\<forall>r. fst (standardize_column_names s df) = Inr r \<longrightarrow>
      length s \<le> r \<and> r < length (snd (standardize_column_names s df)))"
  by (simp add: standardize_column_names_def df_copy_def alloc_def set_columns_def)

lemma validate_data_types_frame:
  "take (length s) (snd (validate_data_types L s df ets)) = s \<and>
   (\<forall>r. fst (validate_data_types L s df ets) = Inr r \<longrightarrow>
      length s \<le> r \<and> r < length (snd (validate_data_types L s df ets)))"
proof -
  obtain v' where "validate_loop L (s @ [s ! df]) (length s) ets = s @ [v']"
    using validate_loop_new by blast
  then show ?thesis
    by (simp add: validate_data_types_def df_copy_def alloc_def)
qed

lemma migration_trends_frame:
  "take (length s) (snd (migration_trends L s df time_col migration_col groupby_col)) = s \<and>
   (\<forall>r. fst (migration_trends L s df time_col migration_col groupby_col) = Inr r \<longrightarrow>
      length s \<le> r \<and>
      r < length (snd (migration_trends L s df time_col migration_col groupby_col)))"
proof -
  define assigned where "assigned = bind_err (getitem ((s @ [s ! df]) ! length s) time_col)
      (\<lambda>c. bind_err (to_datetime L c) (\<lambda>c'. setitem (s @ [s ! df]) (length s) time_col c'))"
  have "(\<exists>e. assigned = Inl e) \<or> (\<exists>v'. assigned = Inr (s @ [v']))"
  proof (cases "getitem ((s @ [s ! df]) ! length s) time_col")
    case (Inl e)
    then show ?thesis by (simp add: assigned_def bind_err_def)
  next
    case c: (Inr c)
    show ?thesis
    proof (cases "to_datetime L c")
      case (Inl e)
      then show ?thesis using c by (simp add: assigned_def bind_err_def)
    next
      case (Inr c')
      then show ?thesis
        using c setitem_new [of s "s ! df" time_col c']
        by (auto simp: assigned_def bind_err_def simp del: nth_append_length)
    qed
  qed
  then show ?thesis
    unfolding migration_trends_def df_copy_def alloc_def
    by (auto simp: assigned_def [symmetric] split: sum.splits simp del: nth_append_length)
qed

text \<open>
  C9. None of the four operations changes a frame that existed before the call, the
  argument among them: the store after the call begins with the store before it. The
  frame an operation returns is a new one, allocated during the call. This holds as well
  when type validation or trend analysis ends with an exception.
\<close>

theorem processing_leaves_argument_unchanged:
  assumes "df < length s"
  shows "(snd (clean_migration_data s df) ! df = s ! df \<and>
          take (length s) (snd (clean_migration_data s df)) = s \<and>
          length s \<le> fst (clean_migration_data s df)) \<and>
         (snd (standardize_column_names s df) ! df = s ! df \<and>
          take (length s) (snd (standardize_column_names s df)) = s \<and>
          (\<forall>r. fst (standardize_column_names s df) = Inr r \<longrightarrow> length s \<le> r)) \<and>
         (snd (validate_data_types L s df expected_types) ! df = s ! df \<and>
          take (length s) (snd (validate_data_types L s df expected_types)) = s \<and>
          (\<forall>r. fst (validate_data_types L s df expected_types) = Inr r \<longrightarrow> length s \<le> r)) \<and>
         (snd (migration_trends L s df time_col migration_col groupby_col) ! df = s ! df \<and>
          take (length s) (snd (migration_trends L s df time_col migration_col groupby_col)) = s \<and>
          (\<forall>r. fst (migration_trends L s df time_col migration_col groupby_col) = Inr r \<longrightarrow>
             length s \<le> r))"
proof -
  have at: "s' ! df = s ! df" if "take (length s) s' = s" for s'
  proof -
    have "take (length s) s' ! df = s' ! df"
      using assms by simp
    then show ?thesis using that by simp
  qed
  show ?thesis
    using clean_migration_data_frame [OF assms]
      standardize_column_names_frame [of s df]
      validate_data_types_frame [of s L df expected_types]
      migration_trends_frame [of s L df time_col migration_col groupby_col]
      at
    by blast
qed

theorem processing_leaves_argument_unchanged_witness:
  "(0::nat) < length [trend_frame] \<and>
   clean_migration_data [trend_frame] 0 = (2, [trend_frame, trend_frame, trend_frame]) \<and>
   snd (clean_migration_data [trend_frame] 0) ! 0 = [trend_frame] ! 0 \<and>
   fst (standardize_column_names [trend_frame] 0) = Inr 1 \<and>
   snd (standardize_column_names [trend_frame] 0) ! 0 = [trend_frame] ! 0 \<and>
   validate_data_types L0 [trend_frame] 0 [(''date'', ''datetime'')]
     = (Inr 1, [trend_frame, trend_frame_dated]) \<and>
   snd (validate_data_types L0 [trend_frame] 0 [(''date'', ''datetime'')]) ! 0 = [trend_frame] ! 0 \<and>
   migration_trends L0 [trend_frame] 0 ''date'' ''migration_count'' (Some ''origin'')
     = (Inr 2, [trend_frame, trend_frame_dated, trend_frame_trends]) \<and>
   snd (migration_trends L0 [trend_frame] 0 ''date'' ''migration_count'' (Some ''origin'')) ! 0
     = [trend_frame] ! 0"
proof -
  have h: "(0::nat) < length [trend_frame]"
    by simp
  have e1: "clean_migration_data [trend_frame] 0 = (2, [trend_frame, trend_frame, trend_frame])"
    by code_simp
  have e2: "fst (standardize_column_names [trend_frame] 0) = Inr 1"
    by code_simp
  have e3: "validate_data_types L0 [trend_frame] 0 [(''date'', ''datetime'')]
      = (Inr 1, [trend_frame, trend_frame_dated])"
    by code_simp
  have e4: "migration_trends L0 [trend_frame] 0 ''date'' ''migration_count'' (Some ''origin'')
      = (Inr 2, [trend_frame, trend_frame_dated, trend_frame_trends])"
    by code_simp
  show ?thesis
    using processing_leaves_argument_unchanged [OF h, of L0 "[(''date'', ''datetime'')]"
        "''date''" "''migration_count''" "Some ''origin''"] h e1 e2 e3 e4
    by simp
qed

section \<open>The total of the migration column\<close>

lemma sint_sum_list:
  "sint (sum_list xs :: 64 word) = signed_take_bit 63 (sum_list (map sint xs))"
proof (induction xs)
  case Nil
  then show ?case by simp
next
  case (Cons x xs)
  have sx: "signed_take_bit 63 (sint x) = sint x"
    using sint_ge [of x] sint_lt [of x] by (intro signed_take_bit_int_eq_self) simp_all
  have "sint (x + sum_list xs) = signed_take_bit 63 (sint x + sint (sum_list xs))"
    by (simp add: sint_word_ariths)
  also have "sint x + sint (sum_list xs)
      = signed_take_bit 63 (sint x) + signed_take_bit 63 (sum_list (map sint xs))"
    by (simp only: Cons.IH sx)
  also have "signed_take_bit 63 (signed_take_bit 63 (sint x)
      + signed_take_bit 63 (sum_list (map sint xs)))
      = signed_take_bit 63 (sint x + sum_list (map sint xs))"
    by (rule signed_take_bit_add)
  finally show ?case by simp
qed

lemma signed_take_bit_63:
  "signed_take_bit 63 (k :: int) = (k + 9223372036854775808) mod 18446744073709551616 - 9223372036854775808"
  by (simp add: signed_take_bit_eq_take_bit_shift take_bit_eq_mod)

lemma calculate_total:
  assumes "calculate_migration_metrics L df origin_col destination_col migration_col = Inr m"
  shows "bind_err (getitem df migration_col) (series_sum L) = Inr (total_migration m)"
proof (cases "bind_err (getitem df migration_col) (series_sum L)")
  case (Inl e)
  then show ?thesis
    using assms by (simp add: calculate_migration_metrics_def bind_err_def)
next
  case (Inr total)
  then show ?thesis
    using assms
    by (auto simp: calculate_migration_metrics_def bind_err_def split: sum.splits)
qed

lemma sint_scast_up_8: "sint (scast (x :: 8 word) :: 64 word) = sint x"
  using sint_ge [of x] sint_lt [of x]
  by (simp add: signed_scast_eq signed_take_bit_int_eq_self)

lemma sint_scast_up_16: "sint (scast (x :: 16 word) :: 64 word) = sint x"
  using sint_ge [of x] sint_lt [of x]
  by (simp add: signed_scast_eq signed_take_bit_int_eq_self)

lemma sint_scast_up_32: "sint (scast (x :: 32 word) :: 64 word) = sint x"
  using sint_ge [of x] sint_lt [of x]
  by (simp add: signed_scast_eq signed_take_bit_int_eq_self)

lemma sum_scast_8:
  "sint (sum_list (map scast (xs :: 8 word list)) :: 64 word)
     = signed_take_bit 63 (sum_list (map sint xs))"
  unfolding sint_sum_list by (simp add: sint_scast_up_8 comp_def)

lemma sum_scast_16:
  "sint (sum_list (map scast (xs :: 16 word list)) :: 64 word)
     = signed_take_bit 63 (sum_list (map sint xs))"
  unfolding sint_sum_list by (simp add: sint_scast_up_16 comp_def)

lemma sum_scast_32:
  "sint (sum_list (map scast (xs :: 32 word list)) :: 64 word)
     = signed_take_bit 63 (sum_list (map sint xs))"
  unfolding sint_sum_list by (simp add: sint_scast_up_32 comp_def)

lemma series_sum_int:
  assumes "int_values c = Some ns"
  shows "\<exists>w. series_sum L c = Inr (IntScalar w) \<and> sint w = signed_take_bit 63 (sum_list ns)"
proof (cases c)
  case (Int8Col xs)
  then show ?thesis
    using assms sum_scast_8 [of xs] by (auto simp: series_sum_def int_values_def)
next
  case (Int16Col xs)
  then show ?thesis
    using assms sum_scast_16 [of xs] by (auto simp: series_sum_def int_values_def)
next
  case (Int32Col xs)
  then show ?thesis
    using assms sum_scast_32 [of xs] by (auto simp: series_sum_def int_values_def)
next
  case (Int64Col xs)
  then show ?thesis
    using assms sint_sum_list [of xs] by (auto simp: series_sum_def int_values_def)
qed (use assms in \<open>simp_all add: int_values_def\<close>)

lemma series_sum_other:
  "int_values c = None \<Longrightarrow> series_sum L c = sum_other L c"
  by (cases c) (simp_all add: int_values_def series_sum_def)

text \<open>
  C6 as amended. When the call returns, the entry \<open>total_migration\<close> is
  \<open>Series.sum()\<close> of the migration column, whatever its type. For a column of integers
  of any width it is a 64-bit integer: read as a signed number, the mathematical sum of
  the values reduced modulo \<open>2 ^ 64\<close> into the range from \<open>- 2 ^ 63\<close>, and so the
  mathematical sum itself whenever that lies in the range. For a column of another type,
  floats among them, it is the sum as the library computes it.
\<close>

theorem total_migration_is_wrapped_sum:
  assumes "getitem df migration_col = Inr c"
    and "calculate_migration_metrics L df origin_col destination_col migration_col = Inr m"
  shows "series_sum L c = Inr (total_migration m) \<and>
         (\<forall>ns. int_values c = Some ns \<longrightarrow>
            (\<exists>w. total_migration m = IntScalar w \<and>
               sint w = (sum_list ns + 9223372036854775808) mod 18446744073709551616
                          - 9223372036854775808 \<and>
               (- 9223372036854775808 \<le> sum_list ns \<and> sum_list ns < 9223372036854775808 \<longrightarrow>
                  sint w = sum_list ns))) \<and>
         (int_values c = None \<longrightarrow> sum_other L c = Inr (total_migration m))"
proof -
  have "bind_err (getitem df migration_col) (series_sum L) = Inr (total_migration m)"
    by (rule calculate_total [OF assms(2)])
  then have t: "series_sum L c = Inr (total_migration m)"
    using assms(1) by (simp add: bind_err_def)
  have ints: "\<exists>w. total_migration m = IntScalar w \<and>
      sint w = (sum_list ns + 9223372036854775808) mod 18446744073709551616
                 - 9223372036854775808 \<and>
      (- 9223372036854775808 \<le> sum_list ns \<and> sum_list ns < 9223372036854775808 \<longrightarrow>
         sint w = sum_list ns)"
    if i: "int_values c = Some ns" for ns
  proof -
    obtain w where w: "series_sum L c = Inr (IntScalar w)"
        "sint w = signed_take_bit 63 (sum_list ns)"
      using series_sum_int [OF i] by blast
    have eq: "total_migration m = IntScalar w"
      using t w(1) by simp
    have wrap: "sint w = (sum_list ns + 9223372036854775808) mod 18446744073709551616
        - 9223372036854775808"
      by (simp only: w(2) signed_take_bit_63)
    have "sint w = sum_list ns"
      if "- 9223372036854775808 \<le> sum_list ns" "sum_list ns < 9223372036854775808"
      unfolding w(2) using that by (intro signed_take_bit_int_eq_self) simp_all
    then show ?thesis
      using eq wrap by blast
  qed
  have "sum_other L c = Inr (total_migration m)" if "int_values c = None"
    using series_sum_other [OF that, of L] t by simp
  then show ?thesis
    using t ints by blast
qed

theorem total_migration_is_wrapped_sum_witness:
  "getitem trend_frame ''migration_count'' = Inr (Int64Col [50, 47, 52, 50]) \<and>
   int_values (Int64Col [50, 47, 52, 50]) = Some [50, 47, 52, 50] \<and>
   sum_list [50, 47, 52, 50 :: int] = 199 \<and>
   map_sum id total_migration
     (calculate_migration_metrics L0 trend_frame ''origin'' ''destination'' ''migration_count'')
     = Inr (IntScalar 199) \<and>
   sint (199 :: 64 word) = 199 \<and>
   getitem repeated_frame ''distance_km'' = Inr (Float64Col [Fin 100, NaN, Fin 100, NaN]) \<and>
   int_values (Float64Col [Fin 100, NaN, Fin 100, NaN]) = None \<and>
   map_sum id total_migration
     (calculate_migration_metrics L0 repeated_frame ''origin'' ''origin'' ''distance_km'')
     = sum_other L0 (Float64Col [Fin 100, NaN, Fin 100, NaN]) \<and>
   sum_other L0 (Float64Col [Fin 100, NaN, Fin 100, NaN]) = Inr (FloatScalar (Fin 200))"
proof -
  have g: "getitem trend_frame ''migration_count'' = Inr (Int64Col [50, 47, 52, 50])"
    by code_simp
  have i: "int_values (Int64Col [50, 47, 52, 50]) = Some [50, 47, 52, 50]"
    by (simp add: int_values_def)
  have e: "map_sum id total_migration
      (calculate_migration_metrics L0 trend_frame ''origin'' ''destination'' ''migration_count'')
      = Inr (IntScalar 199)"
    by code_simp
  then obtain m where m: "calculate_migration_metrics L0 trend_frame ''origin'' ''destination''
      ''migration_count'' = Inr m"
    by (cases "calculate_migration_metrics L0 trend_frame ''origin'' ''destination''
      ''migration_count''") auto
  have g': "getitem repeated_frame ''distance_km'' = Inr (Float64Col [Fin 100, NaN, Fin 100, NaN])"
    by code_simp
  have i': "int_values (Float64Col [Fin 100, NaN, Fin 100, NaN]) = None"
    by (simp add: int_values_def)
  have e': "map_sum id total_migration
      (calculate_migration_metrics L0 repeated_frame ''origin'' ''origin'' ''distance_km'')
      = Inr (FloatScalar (Fin 200))"
    by code_simp
  then obtain m' where m': "calculate_migration_metrics L0 repeated_frame ''origin'' ''origin''
      ''distance_km'' = Inr m'"
    by (cases "calculate_migration_metrics L0 repeated_frame ''origin'' ''origin''
      ''distance_km''") auto
  have s: "sum_other L0 (Float64Col [Fin 100, NaN, Fin 100, NaN]) = Inr (FloatScalar (Fin 200))"
    by code_simp
  show ?thesis
    using total_migration_is_wrapped_sum [OF g m] total_migration_is_wrapped_sum [OF g' m']
      g i e g' i' e' s
    by simp
qed

text \<open>
  C6 as stated fails where the sum leaves the 64-bit range: for two counts of
  \<open>2 ^ 62\<close> the call returns and \<open>total_migration\<close> is \<open>- 2 ^ 63\<close>, while the
  values add up to \<open>2 ^ 63\<close>.
\<close>

theorem total_migration_overflow_counterexample:
  "getitem overflow_frame ''migration_count''
     = Inr (Int64Col [4611686018427387904, 4611686018427387904]) \<and>
   sum_list (map sint [4611686018427387904, 4611686018427387904 :: 64 word])
     = 9223372036854775808 \<and>
   map_sum id (\<lambda>m. scalar_int (total_migration m))
     (calculate_migration_metrics L0 overflow_frame ''origin'' ''destination'' ''migration_count'')
     = Inr (Some (- 9223372036854775808))"
proof -
  have "getitem overflow_frame ''migration_count''
     = Inr (Int64Col [4611686018427387904, 4611686018427387904])"
    by code_simp
  moreover have "sum_list (map sint [4611686018427387904, 4611686018427387904 :: 64 word])
     = 9223372036854775808"
    by simp
  moreover have "map_sum id (\<lambda>m. scalar_int (total_migration m))
     (calculate_migration_metrics L0 overflow_frame ''origin'' ''destination'' ''migration_count'')
     = Inr (Some (- 9223372036854775808))"
    by code_simp
  ultimately show ?thesis by simp
qed

section \<open>The table of correlations\<close>

lemma set_insert_by: "set (insert_by le x xs) = insert x (set xs)"
  by (induction xs) auto

lemma set_sort_by: "set (sort_by le xs) = set xs"
  unfolding sort_by_def by (induction xs) (simp_all add: set_insert_by)

lemma sort_by_Nil_iff: "sort_by le xs = [] \<longleftrightarrow> xs = []"
  using set_sort_by [of le xs] by (metis set_empty)









section \<open>Downsizing keeps the integers\<close>

lemma series_bounds:
  assumes "ge_opt (series_min xs) lo" "le_opt (series_max xs) hi" "x \<in> set xs"
  shows "lo \<le> sint x \<and> sint x \<le> hi"
proof -
  have ne: "xs \<noteq> []"
    using assms(3) by auto
  have "lo \<le> Min (set (map sint xs))" "Max (set (map sint xs)) \<le> hi"
    using assms(1,2) ne by (simp_all add: ge_opt_def le_opt_def series_min_def series_max_def)
  then show ?thesis
    using assms(3) ne by simp
qed

lemma sint_scast_8:
  "- 128 \<le> sint (x :: 64 word) \<Longrightarrow> sint x \<le> 127 \<Longrightarrow> sint (scast x :: 8 word) = sint x"
  by (simp add: signed_scast_eq signed_take_bit_int_eq_self)

lemma sint_scast_16:
  "- 32768 \<le> sint (x :: 64 word) \<Longrightarrow> sint x \<le> 32767 \<Longrightarrow> sint (scast x :: 16 word) = sint x"
  by (simp add: signed_scast_eq signed_take_bit_int_eq_self)

lemma sint_scast_32:
  "- 2147483648 \<le> sint (x :: 64 word) \<Longrightarrow> sint x \<le> 2147483647 \<Longrightarrow>
     sint (scast x :: 32 word) = sint x"
  by (simp add: signed_scast_eq signed_take_bit_int_eq_self)

lemma cells_narrowed: "cells (narrowed xs) = cells (Int64Col xs)"
proof -
  have a: "cells (Int8Col (map scast xs)) = cells (Int64Col xs)"
    if "ge_opt (series_min xs) (- 128)" "le_opt (series_max xs) 127"
    using series_bounds [OF that] by (simp add: sint_scast_8)
  have b: "cells (Int16Col (map scast xs)) = cells (Int64Col xs)"
    if "ge_opt (series_min xs) (- 32768)" "le_opt (series_max xs) 32767"
    using series_bounds [OF that] by (simp add: sint_scast_16)
  have c: "cells (Int32Col (map scast xs)) = cells (Int64Col xs)"
    if "ge_opt (series_min xs) (- 2147483648)" "le_opt (series_max xs) 2147483647"
    using series_bounds [OF that] by (simp add: sint_scast_32)
  show ?thesis
    using a b c by (simp add: narrowed_def Let_def)
qed

lemma col_len_narrowed: "col_len (narrowed xs) = length xs"
  by (simp add: narrowed_def Let_def)


lemma getitem_set_col_other:
  "n \<noteq> col \<Longrightarrow> getitem (set_col col c df) n = getitem df n"
proof -
  assume n: "n \<noteq> col"
  have "map_of (map (\<lambda>nc. if fst nc = col then (col, c) else nc) cols) n = map_of cols n"
    for cols :: "(string \<times> column) list"
    using n by (induction cols) auto
  then show ?thesis
    by (simp add: getitem_def set_col_def)
qed

lemma getitem_set_col_same:
  "col \<in> set (column_names df) \<Longrightarrow> getitem (set_col col c df) col = Inr c"
proof -
  have "col \<in> fst ` set cols \<Longrightarrow>
      map_of (map (\<lambda>nc. if fst nc = col then (col, c) else nc) cols) col = Some c"
    for cols :: "(string \<times> column) list"
    by (induction cols) auto
  then show "col \<in> set (column_names df) \<Longrightarrow> getitem (set_col col c df) col = Inr c"
    by (simp add: getitem_def set_col_def column_names_def)
qed

lemma index_set_col: "index (set_col col c df) = index df"
  by (simp add: set_col_def)

lemma setitem_Inr:
  assumes "setitem s r col c = Inr s'" "distinct (column_names (s ! r))"
    "col \<in> set (column_names (s ! r))"
  shows "s' = s[r := set_col col c (s ! r)]"
proof -
  have "col_len c = nrows (s ! r)"
    using assms(1) by (auto simp: setitem_def split: if_splits)
  then show ?thesis
    using setitem_set_col [OF assms(2,3)] assms(1) by simp
qed

lemma optimize_int_step:
  assumes "optimize_int r col s = Inr s'" "distinct (column_names (s ! r))"
    "getitem (s ! r) col = Inr (Int64Col xs)"
  shows "s' = s[r := set_col col (narrowed xs) (s ! r)]"
proof -
  have m: "col \<in> set (column_names (s ! r))"
    using assms(2,3) by (force simp: getitem_member column_names_def)
  have same: "s[r := set_col col (Int64Col xs) (s ! r)] = s"
    using set_col_same [OF assms(2,3)] by simp
  have set: "setitem s r col c = Inr s' \<Longrightarrow> s' = s[r := set_col col c (s ! r)]" for c
    by (rule setitem_Inr [OF _ assms(2) m])
  show ?thesis
    using assms(1,3) set same
    by (auto simp: optimize_int_def bind_err_def narrowed_def Let_def split: if_splits)
qed

lemma optimize_int_touches:
  assumes "optimize_int r col s = Inr s'" "distinct (column_names (s ! r))"
    "col \<in> set (column_names (s ! r))"
  shows "touches r col s s'"
proof -
  obtain c where g: "getitem (s ! r) col = Inr c"
    using assms(3) getitem_present by blast
  show ?thesis
  proof (cases "is_int64 c")
    case True
    then obtain xs where "c = Int64Col xs" by (cases c) auto
    then show ?thesis
      using optimize_int_step [OF assms(1,2)] g by (auto simp: touches_def)
  next
    case False
    then have "s' = s"
      using assms(1) g by (cases c) (auto simp: optimize_int_def bind_err_def)
    then show ?thesis by (simp add: touches_def)
  qed
qed

lemma optimize_float_touches:
  assumes "optimize_float L r col s = Inr s'" "distinct (column_names (s ! r))"
    "col \<in> set (column_names (s ! r))"
  shows "touches r col s s'"
  using assms(1) setitem_Inr [OF _ assms(2,3)]
  by (auto simp: optimize_float_def bind_err_def touches_def split: sum.splits)

lemma optimize_object_touches:
  assumes "optimize_object r col s = Inr s'" "distinct (column_names (s ! r))"
    "col \<in> set (column_names (s ! r))"
  shows "touches r col s s'"
  using assms(1) setitem_Inr [OF _ assms(2,3)]
  by (auto simp: optimize_object_def bind_err_def touches_def split: sum.splits if_splits)


lemma touches_keeps:
  assumes "touches r col s s'" "r < length s"
  shows "length s' = length s" "column_names (s' ! r) = column_names (s ! r)"
    "index (s' ! r) = index (s ! r)" "n \<noteq> col \<Longrightarrow> getitem (s' ! r) n = getitem (s ! r) n"
  using assms
  by (auto simp: touches_def column_names_set_col index_set_col getitem_set_col_other)

lemma for_each_keeps:
  assumes "for_each body names s = (None, s')" "r < length s"
    "distinct (column_names (s ! r))" "set names \<subseteq> set (column_names (s ! r))"
    "\<And>col s s'. body col s = Inr s' \<Longrightarrow> distinct (column_names (s ! r)) \<Longrightarrow>
        col \<in> set (column_names (s ! r)) \<Longrightarrow> touches r col s s'"
  shows "length s' = length s \<and> column_names (s' ! r) = column_names (s ! r) \<and>
         index (s' ! r) = index (s ! r) \<and>
         (\<forall>n. n \<notin> set names \<longrightarrow> getitem (s' ! r) n = getitem (s ! r) n)"
  using assms(1-4)
proof (induction names arbitrary: s)
  case Nil
  then show ?case by simp
next
  case (Cons col rest)
  obtain s1 where b: "body col s = Inr s1" and l: "for_each body rest s1 = (None, s')"
    using Cons.prems(1) by (cases "body col s") auto
  have t: "touches r col s s1"
    using assms(5) [OF b Cons.prems(3)] Cons.prems(4) by simp
  note k = touches_keeps [OF t Cons.prems(2)]
  have "length s' = length s1 \<and> column_names (s' ! r) = column_names (s1 ! r) \<and>
      index (s' ! r) = index (s1 ! r) \<and>
      (\<forall>n. n \<notin> set rest \<longrightarrow> getitem (s' ! r) n = getitem (s1 ! r) n)"
    using Cons.prems(2,3,4) k(1,2) by (intro Cons.IH [OF l]) simp_all
  then show ?case
    using k by simp
qed

lemma for_each_optimize_int:
  assumes "for_each (optimize_int r) names s = (None, s')" "r < length s"
    "distinct (column_names (s ! r))" "set names \<subseteq> set (column_names (s ! r))"
    "distinct names" "n \<in> set names" "getitem (s ! r) n = Inr (Int64Col xs)"
  shows "getitem (s' ! r) n = Inr (narrowed xs)"
  using assms
proof (induction names arbitrary: s)
  case Nil
  then show ?case by simp
next
  case (Cons col rest)
  obtain s1 where b: "optimize_int r col s = Inr s1"
    and l: "for_each (optimize_int r) rest s1 = (None, s')"
    using Cons.prems(1) by (cases "optimize_int r col s") auto
  have m: "col \<in> set (column_names (s ! r))"
    using Cons.prems(4) by simp
  have t: "touches r col s s1"
    by (rule optimize_int_touches [OF b Cons.prems(3) m])
  note k = touches_keeps [OF t Cons.prems(2)]
  have r1: "r < length s1" and d1: "distinct (column_names (s1 ! r))"
    and sub1: "set rest \<subseteq> set (column_names (s1 ! r))"
    using Cons.prems(2,3,4) k(1,2) by simp_all
  show ?case
  proof (cases "n = col")
    case True
    have "s1 = s[r := set_col col (narrowed xs) (s ! r)]"
      using optimize_int_step [OF b Cons.prems(3)] Cons.prems(7) True by simp
    then have "getitem (s1 ! r) col = Inr (narrowed xs)"
      using Cons.prems(2) m by (simp add: getitem_set_col_same)
    moreover have "col \<notin> set rest"
      using Cons.prems(5) by simp
    ultimately show ?thesis
      using for_each_keeps [OF l r1 d1 sub1 optimize_int_touches] True by simp
  next
    case False
    then have "n \<in> set rest" "getitem (s1 ! r) n = Inr (Int64Col xs)"
      using Cons.prems(6,7) k(4) by simp_all
    then show ?thesis
      using Cons.prems(5) by (intro Cons.IH [OF l r1 d1 sub1]) simp_all
  qed
qed

lemma select_dtypes_subset: "set (select_dtypes p df) \<subseteq> set (column_names df)"
  by (auto simp: select_dtypes_def column_names_def)

lemma select_dtypes_distinct:
  "distinct (column_names df) \<Longrightarrow> distinct (select_dtypes p df)"
  by (simp add: select_dtypes_def column_names_def distinct_map_filter)

lemma select_dtypes_member:
  assumes "distinct (column_names df)"
  shows "n \<in> set (select_dtypes p df) \<longleftrightarrow> (\<exists>c. getitem df n = Inr c \<and> p c)"
  using assms by (force simp: select_dtypes_def getitem_member)

lemma narrowed_not_float: "\<not> is_float64 (narrowed xs)"
  by (simp add: narrowed_def Let_def)

lemma narrowed_not_object: "\<not> is_object (narrowed xs)"
  by (simp add: narrowed_def Let_def)


text \<open>
  When \<open>optimize_dtypes\<close> returns, the table has the row labels and the column labels
  of the argument, and a column of 64-bit integers has become the narrowest of the four
  integer types that its minimum and maximum allow, with every value as it was.
\<close>

lemma optimize_dtypes_returns:
  assumes "df < length s" and "distinct (column_names (s ! df))"
    and "optimize_dtypes L s df = (Inr r, s')"
  shows "index (s' ! r) = index (s ! df) \<and>
         column_names (s' ! r) = column_names (s ! df) \<and>
         (\<forall>n xs. getitem (s ! df) n = Inr (Int64Col xs) \<longrightarrow>
            getitem (s' ! r) n = Inr (narrowed xs) \<and>
            cells (narrowed xs) = map (\<lambda>x. IntCell (sint x)) xs)"
proof -
  define s1 where "s1 = s @ [s ! df]"
  define r0 where "r0 = length s"
  have at1: "s1 ! r0 = s ! df" and r1: "r0 < length s1"
    by (simp_all add: s1_def r0_def)
  have d1: "distinct (column_names (s1 ! r0))"
    using assms(2) by (simp add: at1)
  obtain s2 s3 where
    l1: "for_each (optimize_int r0) (select_dtypes is_int64 (s1 ! r0)) s1 = (None, s2)" and
    l2: "for_each (optimize_float L r0) (select_dtypes is_float64 (s2 ! r0)) s2 = (None, s3)" and
    l3: "for_each (optimize_object r0) (select_dtypes is_object (s3 ! r0)) s3 = (None, s')" and
    r: "r = r0"
    using assms(3)
    unfolding optimize_dtypes_def df_copy_def alloc_def s1_def [symmetric] r0_def [symmetric]
    by (auto split: prod.splits option.splits)
  note k1 = for_each_keeps [OF l1 r1 d1 select_dtypes_subset optimize_int_touches]
  have r2: "r0 < length s2" and d2: "distinct (column_names (s2 ! r0))"
    using k1 r1 d1 by simp_all
  note k2 = for_each_keeps [OF l2 r2 d2 select_dtypes_subset optimize_float_touches]
  have r3: "r0 < length s3" and d3: "distinct (column_names (s3 ! r0))"
    using k2 r2 d2 by simp_all
  note k3 = for_each_keeps [OF l3 r3 d3 select_dtypes_subset optimize_object_touches]
  have ints: "getitem (s' ! r0) n = Inr (narrowed xs)"
    if g: "getitem (s ! df) n = Inr (Int64Col xs)" for n xs
  proof -
    have g1: "getitem (s1 ! r0) n = Inr (Int64Col xs)"
      using g by (simp add: at1)
    then have "n \<in> set (select_dtypes is_int64 (s1 ! r0))"
      using d1 by (simp add: select_dtypes_member)
    then have g2: "getitem (s2 ! r0) n = Inr (narrowed xs)"
      using for_each_optimize_int [OF l1 r1 d1 select_dtypes_subset
          select_dtypes_distinct [OF d1] _ g1] by simp
    then have "n \<notin> set (select_dtypes is_float64 (s2 ! r0))"
      using d2 by (simp add: select_dtypes_member narrowed_not_float)
    then have g3: "getitem (s3 ! r0) n = Inr (narrowed xs)"
      using k2 g2 by simp
    then have "n \<notin> set (select_dtypes is_object (s3 ! r0))"
      using d3 by (simp add: select_dtypes_member narrowed_not_object)
    then show ?thesis
      using k3 g3 by simp
  qed
  have "index (s' ! r0) = index (s ! df)" "column_names (s' ! r0) = column_names (s ! df)"
    using k1 k2 k3 at1 by simp_all
  then show ?thesis
    using ints cells_narrowed by (simp add: r)
qed

section \<open>Downsizing a table without rows\<close>

text \<open>
  C10. The claim promises a table of the same shape for every frame. For a frame with no
  rows and a column of strings, as read from a file that holds only a header line, the
  third loop of \<open>optimize_dtypes\<close> divides by the number of rows and the call ends with
  a ZeroDivisionError, whatever the library does: no table is returned.
\<close>

theorem optimize_dtypes_header_only_raises:
  "fst (optimize_dtypes L [header_only_frame] 0) = Inl ZeroDivisionError"
  by (simp add: optimize_dtypes_def df_copy_def alloc_def header_only_frame_def
      select_dtypes_def optimize_object_def getitem_def bind_err_def nrows_def)

section \<open>The distance between two places\<close>

text \<open>
  Bounds for the sine from its Maclaurin polynomial of degree 5, and for \<open>pi\<close> from the
  sign of the cosine at \<open>1.57\<close> and at \<open>11 / 7\<close>.
\<close>

lemma sin_polynomial:
  fixes x :: real
  shows "(\<Sum>m<7. sin_coeff m * x ^ m) = x - x ^ 3 / 6 + x ^ 5 / 120"
proof -
  have "{..<7::nat} = {0, 1, 2, 3, 4, 5, 6}"
    by auto
  then show ?thesis
    by (simp add: sin_coeff_def fact_numeral)
qed

lemma sin_enclosure:
  fixes x :: real
  assumes "0 \<le> x"
  shows "x - x ^ 3 / 6 + x ^ 5 / 120 - x ^ 7 / 5040 \<le> sin x"
    and "sin x \<le> x - x ^ 3 / 6 + x ^ 5 / 120 + x ^ 7 / 5040"
proof -
  have "\<bar>sin x - (\<Sum>m<7. sin_coeff m * x ^ m)\<bar> \<le> inverse (fact 7) * \<bar>x\<bar> ^ 7"
    by (rule Maclaurin_sin_bound)
  moreover have "\<bar>x\<bar> = x"
    using assms by simp
  moreover have "inverse (fact 7 :: real) = 1 / 5040"
    by (simp add: fact_numeral)
  ultimately have b: "\<bar>sin x - (x - x ^ 3 / 6 + x ^ 5 / 120)\<bar> \<le> 1 / 5040 * x ^ 7"
    by (simp only: sin_polynomial)
  show "x - x ^ 3 / 6 + x ^ 5 / 120 - x ^ 7 / 5040 \<le> sin x"
    using b by linarith
  show "sin x \<le> x - x ^ 3 / 6 + x ^ 5 / 120 + x ^ 7 / 5040"
    using b by linarith
qed

lemma cos_by_half_angle: "cos t = 1 - 2 * (sin (t / 2))\<^sup>2" for t :: real
proof -
  have "t = 2 * (t / 2)"
    by simp
  then have "cos t = cos (2 * (t / 2))"
    by (rule arg_cong)
  also have "\<dots> = 1 - 2 * (sin (t / 2))\<^sup>2"
    by (rule cos_double_sin)
  finally show ?thesis .
qed

lemma pi_gt_157_50: "157 / 50 < pi"
proof -
  have z: "(0::real) \<le> 157 / 200"
    by simp
  have "sin (157 / 200 :: real) \<le>
        157 / 200 - (157 / 200) ^ 3 / 6 + (157 / 200) ^ 5 / 120 + (157 / 200) ^ 7 / 5040"
    using z by (rule sin_enclosure)
  also have "\<dots> \<le> 7069 / 10000"
    by (simp add: power_divide)
  finally have hi: "sin (157 / 200 :: real) \<le> 7069 / 10000" .
  have "(0::real) \<le>
        157 / 200 - (157 / 200) ^ 3 / 6 + (157 / 200) ^ 5 / 120 - (157 / 200) ^ 7 / 5040"
    by (simp add: power_divide)
  also have "\<dots> \<le> sin (157 / 200 :: real)"
    using z by (rule sin_enclosure)
  finally have lo: "0 \<le> sin (157 / 200 :: real)" .
  have "(sin (157 / 200 :: real))\<^sup>2 \<le> (7069 / 10000)\<^sup>2"
    using hi lo by (rule power_mono)
  also have "\<dots> < 1 / 2"
    by (simp add: power_divide)
  finally have "(sin (157 / 200 :: real))\<^sup>2 < 1 / 2" .
  moreover have "cos (157 / 100 :: real) = 1 - 2 * (sin (157 / 100 / 2))\<^sup>2"
    by (rule cos_by_half_angle)
  moreover have "(157 / 100 / 2 :: real) = 157 / 200"
    by simp
  ultimately have pos: "0 < cos (157 / 100 :: real)"
    by simp
  show ?thesis
  proof (rule ccontr)
    assume "\<not> 157 / 50 < pi"
    then have a: "pi / 2 \<le> 157 / 100"
      by simp
    have b: "(157 / 100 :: real) \<le> pi"
      using pi_ge_two by linarith
    have c: "0 \<le> pi / 2"
      using pi_ge_two by linarith
    have "cos (157 / 100) \<le> cos (pi / 2)"
      using c a b by (rule cos_monotone_0_pi_le)
    then show False
      using pos by simp
  qed
qed


lemma pi_lt_22_7: "pi < 22 / 7"
proof -
  have z: "(0::real) \<le> 11 / 14"
    by simp
  have "(7072 / 10000 :: real) \<le>
        11 / 14 - (11 / 14) ^ 3 / 6 + (11 / 14) ^ 5 / 120 - (11 / 14) ^ 7 / 5040"
    by (simp add: power_divide)
  also have "\<dots> \<le> sin (11 / 14 :: real)"
    using z by (rule sin_enclosure)
  finally have lo: "7072 / 10000 \<le> sin (11 / 14 :: real)" .
  have "(1 / 2 :: real) < (7072 / 10000)\<^sup>2"
    by (simp add: power_divide)
  also have "\<dots> \<le> (sin (11 / 14 :: real))\<^sup>2"
    using lo by (rule power_mono) simp
  finally have "1 / 2 < (sin (11 / 14 :: real))\<^sup>2" .
  moreover have "cos (11 / 7 :: real) = 1 - 2 * (sin (11 / 7 / 2))\<^sup>2"
    by (rule cos_by_half_angle)
  moreover have "(11 / 7 / 2 :: real) = 11 / 14"
    by simp
  ultimately have neg: "cos (11 / 7 :: real) < 0"
    by simp
  show ?thesis
  proof (rule ccontr)
    assume "\<not> pi < 22 / 7"
    then have a: "11 / 7 \<le> pi / 2"
      by simp
    have b: "pi / 2 \<le> pi"
      using pi_ge_two by linarith
    have c: "(0::real) \<le> 11 / 7"
      by simp
    have "cos (pi / 2) \<le> cos (11 / 7)"
      using c a b by (rule cos_monotone_0_pi_le)
    then show False
      using neg by simp
  qed
qed

lemma sin_between:
  fixes l t h :: real
  assumes "0 \<le> l" and "l \<le> t" and "t \<le> h" and "h \<le> 3 / 2"
  shows "l - l ^ 3 / 6 + l ^ 5 / 120 - l ^ 7 / 5040 \<le> sin t"
    and "sin t \<le> h - h ^ 3 / 6 + h ^ 5 / 120 + h ^ 7 / 5040"
proof -
  have half: "3 / 2 \<le> pi / 2"
    using pi_gt_157_50 by linarith
  have "- (pi / 2) \<le> l"
    using assms(1) half by linarith
  moreover have "t \<le> pi / 2"
    using assms(3,4) half by linarith
  ultimately have "sin l \<le> sin t"
    using assms(2) by (intro sin_monotone_2pi_le)
  then show "l - l ^ 3 / 6 + l ^ 5 / 120 - l ^ 7 / 5040 \<le> sin t"
    using sin_enclosure(1) [OF assms(1)] by linarith
  have "- (pi / 2) \<le> t"
    using assms(1,2) half by linarith
  moreover have "h \<le> pi / 2"
    using assms(4) half by linarith
  ultimately have "sin t \<le> sin h"
    using assms(3) by (intro sin_monotone_2pi_le)
  moreover have "0 \<le> h"
    using assms(1,2,3) by linarith
  ultimately show "sin t \<le> h - h ^ 3 / 6 + h ^ 5 / 120 + h ^ 7 / 5040"
    using sin_enclosure(2) [of h] by linarith
qed


lemma sin_degrees:
  fixes d l h lo hi :: real
  assumes "0 \<le> l" and "l \<le> d * (157 / 50) / 180" and "d * (22 / 7) / 180 \<le> h"
    and "h \<le> 3 / 2" and "0 \<le> d"
    and "lo \<le> l - l ^ 3 / 6 + l ^ 5 / 120 - l ^ 7 / 5040"
    and "h - h ^ 3 / 6 + h ^ 5 / 120 + h ^ 7 / 5040 \<le> hi"
  shows "lo \<le> sin (d * (pi / 180)) \<and> sin (d * (pi / 180)) \<le> hi"
proof -
  have "d * (157 / 50) \<le> d * pi"
    using assms(5) pi_gt_157_50 by (intro mult_left_mono) simp_all
  then have l: "l \<le> d * (pi / 180)"
    using assms(2) by simp
  have "d * pi \<le> d * (22 / 7)"
    using assms(5) pi_lt_22_7 by (intro mult_left_mono) simp_all
  then have h: "d * (pi / 180) \<le> h"
    using assms(3) by simp
  have "lo \<le> sin (d * (pi / 180))"
    using sin_between(1) [OF assms(1) l h assms(4)] assms(6) by linarith
  moreover have "sin (d * (pi / 180)) \<le> hi"
    using sin_between(2) [OF assms(1) l h assms(4)] assms(7) by linarith
  ultimately show ?thesis
    by (rule conjI)
qed

lemma cos_from_half:
  fixes t lo hi :: real
  assumes "0 \<le> lo" and "lo \<le> sin (t / 2)" and "sin (t / 2) \<le> hi"
  shows "1 - 2 * hi\<^sup>2 \<le> cos t" and "cos t \<le> 1 - 2 * lo\<^sup>2"
proof -
  have s: "0 \<le> sin (t / 2)"
    using assms(1,2) by linarith
  have "(sin (t / 2))\<^sup>2 \<le> hi\<^sup>2"
    using assms(3) s by (rule power_mono)
  then show "1 - 2 * hi\<^sup>2 \<le> cos t"
    unfolding cos_by_half_angle [of t] by linarith
  have "lo\<^sup>2 \<le> (sin (t / 2))\<^sup>2"
    using assms(2,1) by (rule power_mono)
  then show "cos t \<le> 1 - 2 * lo\<^sup>2"
    unfolding cos_by_half_angle [of t] by linarith
qed

text \<open>Half the difference of the latitudes, and of the longitudes, in radians.\<close>

lemma sin_half_dlat:
  "3194 / 100000 \<le> sin (18317 / 10000 * (pi / 180)) \<and>
   sin (18317 / 10000 * (pi / 180)) \<le> 3199 / 100000"
  by (rule sin_degrees [where l = "3195 / 100000" and h = "3199 / 100000"]; simp add: power_divide)

lemma sin_half_dlon:
  "9625 / 100000 \<le> sin (55264 / 10000 * (pi / 180)) \<and>
   sin (55264 / 10000 * (pi / 180)) \<le> 9636 / 100000"
  by (rule sin_degrees [where l = "964 / 10000" and h = "965 / 10000"]; simp add: power_divide)

text \<open>The cosines of the two latitudes, from the sines of half the angles.\<close>

lemma sin_half_lat1:
  "4421 / 10000 \<le> sin (2626 / 100 * (pi / 180)) \<and>
   sin (2626 / 100 * (pi / 180)) \<le> 4427 / 10000"
  by (rule sin_degrees [where l = "4580 / 10000" and h = "4586 / 10000"]; simp add: power_divide)

lemma sin_half_lat2:
  "4133 / 10000 \<le> sin (244283 / 10000 * (pi / 180)) \<and>
   sin (244283 / 10000 * (pi / 180)) \<le> 4138 / 10000"
  by (rule sin_degrees [where l = "4261 / 10000" and h = "4266 / 10000"]; simp add: power_divide)

lemma cos_lat1:
  "6080 / 10000 \<le> cos (radians 52.52)" "cos (radians 52.52) \<le> 6091 / 10000"
proof -
  have e: "radians 52.52 / 2 = 2626 / 100 * (pi / 180)"
    by (simp add: radians_def)
  have z: "(0::real) \<le> 4421 / 10000"
    by simp
  have "(6080 / 10000 :: real) \<le> 1 - 2 * (4427 / 10000)\<^sup>2"
    by (simp add: power_divide)
  also have "\<dots> \<le> cos (radians 52.52)"
    using z sin_half_lat1 [THEN conjunct1] sin_half_lat1 [THEN conjunct2]
    unfolding e [symmetric] by (rule cos_from_half)
  finally show "6080 / 10000 \<le> cos (radians 52.52)" .
  have "cos (radians 52.52) \<le> 1 - 2 * (4421 / 10000)\<^sup>2"
    using z sin_half_lat1 [THEN conjunct1] sin_half_lat1 [THEN conjunct2]
    unfolding e [symmetric] by (rule cos_from_half)
  also have "\<dots> \<le> 6091 / 10000"
    by (simp add: power_divide)
  finally show "cos (radians 52.52) \<le> 6091 / 10000" .
qed

lemma cos_lat2:
  "6575 / 10000 \<le> cos (radians 48.8566)" "cos (radians 48.8566) \<le> 6584 / 10000"
proof -
  have e: "radians 48.8566 / 2 = 244283 / 10000 * (pi / 180)"
    by (simp add: radians_def)
  have z: "(0::real) \<le> 4133 / 10000"
    by simp
  have "(6575 / 10000 :: real) \<le> 1 - 2 * (4138 / 10000)\<^sup>2"
    by (simp add: power_divide)
  also have "\<dots> \<le> cos (radians 48.8566)"
    using z sin_half_lat2 [THEN conjunct1] sin_half_lat2 [THEN conjunct2]
    unfolding e [symmetric] by (rule cos_from_half)
  finally show "6575 / 10000 \<le> cos (radians 48.8566)" .
  have "cos (radians 48.8566) \<le> 1 - 2 * (4133 / 10000)\<^sup>2"
    using z sin_half_lat2 [THEN conjunct1] sin_half_lat2 [THEN conjunct2]
    unfolding e [symmetric] by (rule cos_from_half)
  also have "\<dots> \<le> 6584 / 10000"
    by (simp add: power_divide)
  finally show "cos (radians 48.8566) \<le> 6584 / 10000" .
qed

text \<open>The haversine term of the two places.\<close>

lemma haversine_term:
  "(sin ((radians 48.8566 - radians 52.52) / 2))\<^sup>2 +
     cos (radians 52.52) * cos (radians 48.8566) *
     (sin ((radians 2.3522 - radians 13.405) / 2))\<^sup>2 =
   (sin (18317 / 10000 * (pi / 180)))\<^sup>2 +
     cos (radians 52.52) * cos (radians 48.8566) * (sin (55264 / 10000 * (pi / 180)))\<^sup>2"
proof -
  have "(radians 48.8566 - radians 52.52) / 2 = - (18317 / 10000 * (pi / 180))"
    by (simp add: radians_def)
  then have lat: "(sin ((radians 48.8566 - radians 52.52) / 2))\<^sup>2 =
      (sin (18317 / 10000 * (pi / 180)))\<^sup>2"
    by (simp only: sin_minus power2_minus)
  have "(radians 2.3522 - radians 13.405) / 2 = - (55264 / 10000 * (pi / 180))"
    by (simp add: radians_def)
  then have lon: "(sin ((radians 2.3522 - radians 13.405) / 2))\<^sup>2 =
      (sin (55264 / 10000 * (pi / 180)))\<^sup>2"
    by (simp only: sin_minus power2_minus)
  show ?thesis
    unfolding lat lon by (rule refl)
qed

lemma haversine_term_bounds:
  "472 / 100000 \<le> (sin ((radians 48.8566 - radians 52.52) / 2))\<^sup>2 +
     cos (radians 52.52) * cos (radians 48.8566) *
     (sin ((radians 2.3522 - radians 13.405) / 2))\<^sup>2"
  "(sin ((radians 48.8566 - radians 52.52) / 2))\<^sup>2 +
     cos (radians 52.52) * cos (radians 48.8566) *
     (sin ((radians 2.3522 - radians 13.405) / 2))\<^sup>2 \<le> 475 / 100000"
proof -
  define s1 where "s1 = sin (18317 / 10000 * (pi / 180))"
  define s2 where "s2 = sin (55264 / 10000 * (pi / 180))"
  define c1 where "c1 = cos (radians 52.52)"
  define c2 where "c2 = cos (radians 48.8566)"
  have s1: "3194 / 100000 \<le> s1" "s1 \<le> 3199 / 100000"
    unfolding s1_def using sin_half_dlat by simp_all
  have s2: "9625 / 100000 \<le> s2" "s2 \<le> 9636 / 100000"
    unfolding s2_def using sin_half_dlon by simp_all
  have c1: "6080 / 10000 \<le> c1" "c1 \<le> 6091 / 10000"
    unfolding c1_def by (rule cos_lat1)+
  have c2: "6575 / 10000 \<le> c2" "c2 \<le> 6584 / 10000"
    unfolding c2_def by (rule cos_lat2)+
  have a: "(sin ((radians 48.8566 - radians 52.52) / 2))\<^sup>2 +
     cos (radians 52.52) * cos (radians 48.8566) *
     (sin ((radians 2.3522 - radians 13.405) / 2))\<^sup>2 =
      s1\<^sup>2 + c1 * c2 * s2\<^sup>2"
    unfolding s1_def s2_def c1_def c2_def by (rule haversine_term)
  have p1: "(3194 / 100000)\<^sup>2 \<le> s1\<^sup>2"
    using s1(1) by (rule power_mono) simp
  have p2: "(9625 / 100000)\<^sup>2 \<le> s2\<^sup>2"
    using s2(1) by (rule power_mono) simp
  have cc: "6080 / 10000 * (6575 / 10000) \<le> c1 * c2"
    using c1(1) c2(1) by (rule mult_mono) (use c1(1) in simp_all)
  have "6080 / 10000 * (6575 / 10000) * (9625 / 100000)\<^sup>2 \<le> c1 * c2 * s2\<^sup>2"
    using cc p2 by (rule mult_mono) (use cc in simp_all)
  then have "(3194 / 100000)\<^sup>2 + 6080 / 10000 * (6575 / 10000) * (9625 / 100000)\<^sup>2
      \<le> s1\<^sup>2 + c1 * c2 * s2\<^sup>2"
    using p1 by (rule add_mono [rotated])
  moreover have "(472 / 100000 :: real) \<le>
      (3194 / 100000)\<^sup>2 + 6080 / 10000 * (6575 / 10000) * (9625 / 100000)\<^sup>2"
    by (simp add: power_divide)
  ultimately show "472 / 100000 \<le>
      (sin ((radians 48.8566 - radians 52.52) / 2))\<^sup>2 +
     cos (radians 52.52) * cos (radians 48.8566) *
     (sin ((radians 2.3522 - radians 13.405) / 2))\<^sup>2"
    unfolding a by (rule order_trans [rotated])
  have z1: "0 \<le> s1" and z2: "0 \<le> s2" and zc1: "0 \<le> c1" and zc2: "0 \<le> c2"
    using s1(1) s2(1) c1(1) c2(1) by simp_all
  have q1: "s1\<^sup>2 \<le> (3199 / 100000)\<^sup>2"
    using s1(2) z1 by (rule power_mono)
  have q2: "s2\<^sup>2 \<le> (9636 / 100000)\<^sup>2"
    using s2(2) z2 by (rule power_mono)
  have dd: "c1 * c2 \<le> 6091 / 10000 * (6584 / 10000)"
    using c1(2) c2(2) by (rule mult_mono) (use zc2 in simp_all)
  have "c1 * c2 * s2\<^sup>2 \<le> 6091 / 10000 * (6584 / 10000) * (9636 / 100000)\<^sup>2"
    using dd q2 by (rule mult_mono) simp_all
  then have "s1\<^sup>2 + c1 * c2 * s2\<^sup>2 \<le>
      (3199 / 100000)\<^sup>2 + 6091 / 10000 * (6584 / 10000) * (9636 / 100000)\<^sup>2"
    using q1 by (rule add_mono [rotated])
  moreover have "(3199 / 100000)\<^sup>2 + 6091 / 10000 * (6584 / 10000) * (9636 / 100000)\<^sup>2
      \<le> (475 / 100000 :: real)"
    by (simp add: power_divide)
  ultimately show
    "(sin ((radians 48.8566 - radians 52.52) / 2))\<^sup>2 +
     cos (radians 52.52) * cos (radians 48.8566) *
     (sin ((radians 2.3522 - radians 13.405) / 2))\<^sup>2 \<le> 475 / 100000"
    unfolding a by (rule order_trans)
qed

text \<open>Two values of the tangent, to bound the arc tangent.\<close>

lemma tan_lower: "tan (686 / 10000 :: real) \<le> 688 / 10000"
proof -
  have z: "(0::real) \<le> 343 / 10000"
    by simp
  have "sin (343 / 10000 :: real) \<le> 343 / 10000"
    using z by (rule sin_x_le_x)
  moreover have "(0::real) \<le> 343 / 10000 - (343 / 10000) ^ 3 / 6 + (343 / 10000) ^ 5 / 120
      - (343 / 10000) ^ 7 / 5040"
    by (simp add: power_divide)
  then have "0 \<le> sin (343 / 10000 :: real)"
    using sin_enclosure(1) [OF z] by linarith
  moreover have "(686 / 10000 / 2 :: real) = 343 / 10000"
    by simp
  ultimately have "1 - 2 * (343 / 10000)\<^sup>2 \<le> cos (686 / 10000 :: real)"
    using cos_from_half(1) [of 0 "686 / 10000" "343 / 10000"] by simp
  moreover have "(9976 / 10000 :: real) \<le> 1 - 2 * (343 / 10000)\<^sup>2"
    by (simp add: power_divide)
  ultimately have c: "9976 / 10000 \<le> cos (686 / 10000 :: real)"
    by linarith
  have s: "sin (686 / 10000 :: real) \<le> 686 / 10000"
    by (rule sin_x_le_x) simp
  have "sin (686 / 10000 :: real) \<le> 688 / 10000 * (9976 / 10000)"
    using s by linarith
  also have "\<dots> \<le> 688 / 10000 * cos (686 / 10000 :: real)"
    using c by (intro mult_left_mono) simp_all
  finally have "sin (686 / 10000 :: real) / cos (686 / 10000) \<le> 688 / 10000"
    using c by (simp add: pos_divide_le_eq)
  then show ?thesis
    unfolding tan_def .
qed

lemma tan_upper: "691 / 10000 \<le> tan (692 / 10000 :: real)"
proof -
  have z: "(0::real) \<le> 692 / 10000"
    by simp
  have "(691 / 10000 :: real) \<le> 692 / 10000 - (692 / 10000) ^ 3 / 6 + (692 / 10000) ^ 5 / 120
      - (692 / 10000) ^ 7 / 5040"
    by (simp add: power_divide)
  then have s: "691 / 10000 \<le> sin (692 / 10000 :: real)"
    using sin_enclosure(1) [OF z] by linarith
  have "(692 / 10000 :: real) < pi / 2"
    using pi_gt_157_50 by linarith
  then have c: "0 < cos (692 / 10000 :: real)"
    by (intro cos_gt_zero_pi) simp_all
  have "sin (692 / 10000 :: real) * cos (692 / 10000) \<le> sin (692 / 10000) * 1"
    using s by (intro mult_left_mono) simp_all
  then have "sin (692 / 10000 :: real) \<le> sin (692 / 10000) / cos (692 / 10000)"
    using c by (simp add: pos_le_divide_eq)
  then show ?thesis
    unfolding tan_def using s by linarith
qed

text \<open>
  C1. For Berlin (52.52, 13.405) and Paris (48.8566, 2.3522) the function returns, and the
  distance it returns is within 5 km of 878 km.
\<close>

theorem calculate_distance_berlin_paris:
  "\<exists>d. calculate_distance 52.52 13.405 48.8566 2.3522 = Inr d \<and> \<bar>d - 878\<bar> \<le> 5"
proof -
  define a where
    "a = (sin ((radians 48.8566 - radians 52.52) / 2))\<^sup>2 +
     cos (radians 52.52) * cos (radians 48.8566) *
     (sin ((radians 2.3522 - radians 13.405) / 2))\<^sup>2"
  define q where "q = sqrt a / sqrt (1 - a)"
  have lo: "472 / 100000 \<le> a" and hi: "a \<le> 475 / 100000"
    unfolding a_def by (rule haversine_term_bounds)+
  have pos: "0 < 1 - a"
    using hi by linarith
  have root: "0 < sqrt (1 - a)"
    using pos by simp
  have call: "calculate_distance 52.52 13.405 48.8566 2.3522 =
      bind_err (math_sqrt a) (\<lambda>s.
      bind_err (math_sqrt (1 - a)) (\<lambda>s'.
        Inr (6371 * (2 * atan2 s s'))))"
    unfolding calculate_distance_def Let_def a_def by (rule refl)
  have first: "math_sqrt a = Inr (sqrt a)"
    using lo by (simp add: math_sqrt_def)
  have second: "math_sqrt (1 - a) = Inr (sqrt (1 - a))"
    using pos by (simp add: math_sqrt_def)
  have angle: "atan2 (sqrt a) (sqrt (1 - a)) = arctan q"
    using root by (simp add: atan2_def q_def)
  have returned: "calculate_distance 52.52 13.405 48.8566 2.3522 = Inr (6371 * (2 * arctan q))"
    unfolding call first second bind_err_def sum.case angle by (rule refl)
  have q: "q = sqrt (a / (1 - a))"
    unfolding q_def by (rule real_sqrt_divide [symmetric])
  have "(688 / 10000)\<^sup>2 * (1 - a) \<le> a"
    using lo by (simp add: power_divide)
  then have "(688 / 10000)\<^sup>2 \<le> a / (1 - a)"
    using pos by (simp add: pos_le_divide_eq)
  then have ql: "688 / 10000 \<le> q"
    unfolding q by (rule real_le_rsqrt)
  have "a \<le> (691 / 10000)\<^sup>2 * (1 - a)"
    using hi by (simp add: power_divide)
  then have "a / (1 - a) \<le> (691 / 10000)\<^sup>2"
    using pos by (simp add: pos_divide_le_eq)
  then have qh: "q \<le> 691 / 10000"
    unfolding q by (intro real_le_lsqrt) simp_all
  have half: "(692 / 10000 :: real) < pi / 2"
    using pi_gt_157_50 by linarith
  have "arctan (tan (686 / 10000)) \<le> arctan q"
    using tan_lower ql by (simp add: arctan_le_iff)
  moreover have "arctan (tan (686 / 10000)) = 686 / 10000"
    using half by (intro arctan_tan) linarith+
  ultimately have al: "686 / 10000 \<le> arctan q"
    by simp
  have "arctan q \<le> arctan (tan (692 / 10000))"
    using tan_upper qh by (simp add: arctan_le_iff)
  moreover have "arctan (tan (692 / 10000)) = 692 / 10000"
    using half by (intro arctan_tan) linarith+
  ultimately have ah: "arctan q \<le> 692 / 10000"
    by simp
  have "\<bar>6371 * (2 * arctan q) - 878\<bar> \<le> 5"
    using al ah by simp
  then show ?thesis
    using returned by simp
qed

end
